theory Spec2Isabelle
  imports Complex_Main "HOL-Library.Sublist" "HOL-Library.Multiset"
begin

section \<open>ArUco detection service: shallow embedding\<close>

text \<open>
  The service (\<^verbatim>\<open>docker/aruco-service/app\<close>) consists of \<^verbatim>\<open>georef.py\<close>
  (retrieval, raster loading, pixel-to-geographic mapping, temp-file cleanup),
  \<^verbatim>\<open>detector.py\<close> (dictionary lookup, shape confidence, rotation, marker
  assembly) and \<^verbatim>\<open>main.py\<close> (the \<^verbatim>\<open>/detect\<close> request handler).

  Python floats and numpy numbers are modelled as mathematical reals, so every
  statement below is about exact real arithmetic; Python exceptions are values
  of the type \<open>error\<close> on the left of a sum.
\<close>

subsection \<open>Errors\<close>

datatype error =
    ValueError string
  | IndexError
  | KeyError
  | RasterioIOError
  | HTTPStatusError
  | CvError
  | OSError

subsection \<open>georef.py: the coordinate mapper\<close>

text \<open>The six coefficients of \<^verbatim>\<open>rasterio.Affine\<close>, attributes \<^verbatim>\<open>a\<close> to \<^verbatim>\<open>f\<close>.\<close>

record affine =
  aff_a :: real
  aff_b :: real
  aff_c :: real
  aff_d :: real
  aff_e :: real
  aff_f :: real

text \<open>
  Python's \<^verbatim>\<open>int(x)\<close> on a float discards the fractional part: it truncates
  toward zero.
\<close>

definition py_int :: "real \<Rightarrow> int" where
  "py_int x = (if 0 \<le> x then \<lfloor>x\<rfloor> else \<lceil>x\<rceil>)"

text \<open>
  \<^verbatim>\<open>rasterio.transform.xy(transform, rows, cols)\<close> is a library function. It is
  called in \<^verbatim>\<open>pixel_to_coords\<close> without the \<^verbatim>\<open>offset\<close> argument, whose
  default is \<^verbatim>\<open>'center'\<close>: the library shifts the column and the row by one
  half and then applies the affine transform, returning the coordinates of the
  centre of the pixel.
\<close>

definition xy :: "affine \<Rightarrow> int \<Rightarrow> int \<Rightarrow> real \<times> real" where
  "xy t row col =
     (let cx = of_int col + 1 / 2; ry = of_int row + 1 / 2
      in (aff_a t * cx + aff_b t * ry + aff_c t,
          aff_d t * cx + aff_e t * ry + aff_f t))"

text \<open>
  \<^verbatim>\<open>
  def pixel_to_coords(transform, pixel_x, pixel_y):
      lng, lat = xy(transform, int(pixel_y), int(pixel_x))
      return lng, lat
  \<close>
\<close>

definition pixel_to_coords :: "affine \<Rightarrow> real \<Rightarrow> real \<Rightarrow> real \<times> real" where
  "pixel_to_coords transform pixel_x pixel_y =
     (case xy transform (py_int pixel_y) (py_int pixel_x) of (lng, lat) \<Rightarrow> (lng, lat))"

text \<open>The identity transform: pixel size 1, no rotation, origin (0, 0).\<close>

definition identity_affine :: affine where
  "identity_affine =
     \<lparr>aff_a = 1, aff_b = 0, aff_c = 0, aff_d = 0, aff_e = 1, aff_f = 0\<rparr>"

text \<open>
  The mapping the specification describes: the plain affine map applied to the
  integer pixel indices themselves, with no half-pixel shift.
\<close>

definition plain_affine :: "affine \<Rightarrow> int \<Rightarrow> int \<Rightarrow> real \<times> real" where
  "plain_affine t row col =
     (aff_a t * of_int col + aff_b t * of_int row + aff_c t,
      aff_d t * of_int col + aff_e t * of_int row + aff_f t)"

subsection \<open>georef.py: the raster loader\<close>

text \<open>
  What \<^verbatim>\<open>rasterio.open\<close> gives for a readable raster file: the pixel datatype,
  the height and width, the bands (each a list of rows of pixel values), the
  affine transform and the coordinate reference system. \<^verbatim>\<open>src.count\<close> is the
  number of bands.
\<close>

datatype dtype = UInt8 | Int8 | UInt16 | Int16 | UInt32 | Int32 | Float32 | Float64

record dataset =
  ds_dtype :: dtype
  ds_height :: nat
  ds_width :: nat
  ds_bands :: "real list list list"
  ds_transform :: affine
  ds_crs :: string

definition ds_count :: "dataset \<Rightarrow> nat" where
  "ds_count src = length (ds_bands src)"

text \<open>
  A numpy image of shape (H, W, C) with its dtype: rows of pixels, each pixel
  the list of its channel values.
\<close>

record image =
  img_dtype :: dtype
  img_data :: "real list list list"

text \<open>
  The state of the file system: the content of each existing path (a readable
  raster, or \<open>None\<close> for bytes that are no raster, such as an empty file), and
  the paths whose removal the operating system refuses.
\<close>

record world =
  files :: "string \<rightharpoonup> dataset option"
  undeletable :: "string set"

definition rasterio_open :: "world \<Rightarrow> string \<Rightarrow> error + dataset" where
  "rasterio_open w file_path =
     (case files w file_path of
        None \<Rightarrow> Inl RasterioIOError
      | Some None \<Rightarrow> Inl RasterioIOError
      | Some (Some src) \<Rightarrow> Inr src)"

text \<open>Python's \<^verbatim>\<open>str\<close> of a natural number, for the f-string of the error message.\<close>

definition digit_char :: "nat \<Rightarrow> char" where
  "digit_char n = ''0123456789'' ! n"

fun py_str_nat :: "nat \<Rightarrow> string" where
  "py_str_nat n = (if n < 10 then [digit_char n] else py_str_nat (n div 10) @ [digit_char (n mod 10)])"

declare py_str_nat.simps [simp del]

text \<open>
  \<^verbatim>\<open>np.transpose(src.read([1, 2, 3]), (1, 2, 0))\<close>: the entry at row \<open>h\<close>, column
  \<open>w\<close>, channel \<open>c\<close> is the entry of band \<open>c\<close> at row \<open>h\<close>, column \<open>w\<close>.
\<close>

definition np_transpose_1_2_0 :: "nat \<Rightarrow> nat \<Rightarrow> real list list list \<Rightarrow> real list list list" where
  "np_transpose_1_2_0 height width bands =
     map (\<lambda>h. map (\<lambda>w. map (\<lambda>band. band ! h ! w) bands) [0..<width]) [0..<height]"

text \<open>\<^verbatim>\<open>np.stack([img, img, img], axis=-1)\<close> on a band of shape (H, W).\<close>

definition np_stack3 :: "real list list \<Rightarrow> real list list list" where
  "np_stack3 band = map (map (\<lambda>v. [v, v, v])) band"

text \<open>
  Lines 82 to 93 of \<^verbatim>\<open>load_geotiff_for_detection\<close>:
  \<^verbatim>\<open>
  band_count = src.count
  if band_count >= 3:
      img = src.read([1, 2, 3]); img = np.transpose(img, (1, 2, 0))
  elif band_count == 1:
      img = src.read(1); img = np.stack([img, img, img], axis=-1)
  else:
      raise ValueError(f"Unexpected band count: {band_count}")
  \<close>
\<close>

definition read_bands :: "dataset \<Rightarrow> error + image" where
  "read_bands src =
     (let band_count = ds_count src
      in if 3 \<le> band_count then
           Inr \<lparr>img_dtype = ds_dtype src,
                img_data = np_transpose_1_2_0 (ds_height src) (ds_width src) (take 3 (ds_bands src))\<rparr>
         else if band_count = 1 then
           Inr \<lparr>img_dtype = ds_dtype src, img_data = np_stack3 (ds_bands src ! 0)\<rparr>
         else Inl (ValueError (''Unexpected band count: '' @ py_str_nat band_count)))"

text \<open>
  \<^verbatim>\<open>img.max()\<close>: the largest entry; numpy raises ValueError on an array with no
  entries.
\<close>

definition np_max :: "real list list list \<Rightarrow> error + real" where
  "np_max data =
     (let flat = concat (concat data)
      in if flat = [] then
           Inl (ValueError ''zero-size array to reduction operation maximum which has no identity'')
         else Inr (Max (set flat)))"

text \<open>
  \<^verbatim>\<open>.astype(np.uint8)\<close> on one value: the fractional part is discarded and the
  integer is reduced modulo 256 (the wrap-around of an integer cast; for a
  float outside the range of the target the C cast is platform-defined, and
  the model takes the same wrap-around).
\<close>

definition astype_uint8 :: "real \<Rightarrow> real" where
  "astype_uint8 v = of_int (py_int v mod 256)"

definition map_pixels :: "(real \<Rightarrow> real) \<Rightarrow> real list list list \<Rightarrow> real list list list" where
  "map_pixels g data = map (map (map g)) data"

text \<open>
  Lines 95 to 101:
  \<^verbatim>\<open>
  if img.dtype != np.uint8:
      if img.max() > 255:
          img = (img / img.max() * 255).astype(np.uint8)
      else:
          img = img.astype(np.uint8)
  \<close>
\<close>

definition ensure_uint8 :: "image \<Rightarrow> error + image" where
  "ensure_uint8 img =
     (if img_dtype img \<noteq> UInt8 then
        (case np_max (img_data img) of
           Inl e \<Rightarrow> Inl e
         | Inr m \<Rightarrow>
             if 255 < m then
               Inr \<lparr>img_dtype = UInt8,
                    img_data = map_pixels (\<lambda>v. astype_uint8 (v / m * 255)) (img_data img)\<rparr>
             else
               Inr \<lparr>img_dtype = UInt8, img_data = map_pixels astype_uint8 (img_data img)\<rparr>)
      else Inr img)"

definition load_geotiff_for_detection :: "world \<Rightarrow> string \<Rightarrow> error + (image \<times> affine \<times> string)" where
  "load_geotiff_for_detection w file_path =
     (case rasterio_open w file_path of
        Inl e \<Rightarrow> Inl e
      | Inr src \<Rightarrow>
          (case read_bands src of
             Inl e \<Rightarrow> Inl e
           | Inr img0 \<Rightarrow>
               (case ensure_uint8 img0 of
                  Inl e \<Rightarrow> Inl e
                | Inr img \<Rightarrow> Inr (img, ds_transform src, ds_crs src))))"

text \<open>
  The rasters \<^verbatim>\<open>rasterio\<close> hands out: at least one row and one column, and
  every band of the dataset's height and width.
\<close>

definition dataset_ok :: "dataset \<Rightarrow> bool" where
  "dataset_ok src =
     (0 < ds_height src \<and> 0 < ds_width src \<and>
      list_all (\<lambda>band. length band = ds_height src \<and>
                        list_all (\<lambda>row. length row = ds_width src) band) (ds_bands src))"

subsection \<open>georef.py: retrieval and cleanup of the staged file\<close>

text \<open>
  The environment of a run: the outcome of the HTTP GET for a URL (an error,
  or the content received), and the fresh name \<^verbatim>\<open>NamedTemporaryFile\<close> picks
  under \<^verbatim>\<open>/tmp/aruco\<close>.

  \<^verbatim>\<open>
  temp_file = tempfile.NamedTemporaryFile(delete=False, suffix=".tif", dir=temp_dir)
  temp_path = temp_file.name
  temp_file.close()
  async with httpx.AsyncClient(timeout=300.0) as client:
      response = await client.get(url, follow_redirects=True)
      response.raise_for_status()
      with open(temp_path, "wb") as f:
          f.write(response.content)
  return temp_path
  \<close>
  \<^verbatim>\<open>NamedTemporaryFile(delete=False)\<close> creates the (empty) file on disk before
  the request is sent.
\<close>

definition download_geotiff ::
  "(string \<Rightarrow> error + dataset option) \<Rightarrow> string \<Rightarrow> world \<Rightarrow> string \<Rightarrow> world \<times> (error + string)" where
  "download_geotiff http_get temp_path w url =
     (let w1 = w\<lparr>files := (files w)(temp_path \<mapsto> None)\<rparr>
      in case http_get url of
           Inl e \<Rightarrow> (w1, Inl e)
         | Inr content \<Rightarrow> (w1\<lparr>files := (files w1)(temp_path \<mapsto> content)\<rparr>, Inr temp_path))"

definition os_path_exists :: "world \<Rightarrow> string \<Rightarrow> bool" where
  "os_path_exists w file_path = (files w file_path \<noteq> None)"

definition os_remove :: "world \<Rightarrow> string \<Rightarrow> error + world" where
  "os_remove w file_path =
     (if files w file_path = None \<or> file_path \<in> undeletable w then Inl OSError
      else Inr (w\<lparr>files := (files w)(file_path := None)\<rparr>))"

text \<open>
  \<^verbatim>\<open>
  def cleanup_temp_file(file_path):
      try:
          if os.path.exists(file_path):
              os.remove(file_path)
      except Exception:
          pass  # Ignore cleanup errors
  \<close>
  The body of the \<^verbatim>\<open>try\<close> first, then the function with its handler, which
  turns every exception of the body into a normal return.
\<close>

definition cleanup_body :: "world \<Rightarrow> string \<Rightarrow> error + world" where
  "cleanup_body w file_path =
     (if os_path_exists w file_path then os_remove w file_path else Inr w)"

definition cleanup_temp_file :: "world \<Rightarrow> string \<Rightarrow> error + world" where
  "cleanup_temp_file w file_path =
     (case cleanup_body w file_path of
        Inl e \<Rightarrow> Inr w
      | Inr w' \<Rightarrow> Inr w')"

text \<open>An image of shape (H, W, 3): \<open>H\<close> rows of \<open>W\<close> pixels of three channels.\<close>

definition hwc_shape :: "nat \<Rightarrow> nat \<Rightarrow> real list list list \<Rightarrow> bool" where
  "hwc_shape height width data =
     (length data = height \<and>
      list_all (\<lambda>row. length row = width \<and> list_all (\<lambda>px. length px = 3) row) data)"

subsection \<open>detector.py: dictionary lookup\<close>

text \<open>The identifiers of OpenCV's predefined dictionaries named in the table.\<close>

datatype predefined_dictionary =
    CV_DICT_4X4_50 | CV_DICT_4X4_100 | CV_DICT_4X4_250 | CV_DICT_4X4_1000
  | CV_DICT_5X5_50 | CV_DICT_5X5_100 | CV_DICT_5X5_250 | CV_DICT_5X5_1000
  | CV_DICT_6X6_50 | CV_DICT_6X6_100 | CV_DICT_6X6_250 | CV_DICT_6X6_1000
  | CV_DICT_7X7_50 | CV_DICT_7X7_100 | CV_DICT_7X7_250 | CV_DICT_7X7_1000
  | CV_DICT_ARUCO_ORIGINAL

text \<open>
  The table \<^verbatim>\<open>ARUCO_DICTIONARIES\<close>, as an association list in the order of the
  source: a Python dict keeps insertion order, and \<^verbatim>\<open>list(d.keys())\<close> in the
  error message shows it.
\<close>

definition ARUCO_DICTIONARIES :: "(string \<times> predefined_dictionary) list" where
  "ARUCO_DICTIONARIES =
     [(''DICT_4X4_50'', CV_DICT_4X4_50),
      (''DICT_4X4_100'', CV_DICT_4X4_100),
      (''DICT_4X4_250'', CV_DICT_4X4_250),
      (''DICT_4X4_1000'', CV_DICT_4X4_1000),
      (''DICT_5X5_50'', CV_DICT_5X5_50),
      (''DICT_5X5_100'', CV_DICT_5X5_100),
      (''DICT_5X5_250'', CV_DICT_5X5_250),
      (''DICT_5X5_1000'', CV_DICT_5X5_1000),
      (''DICT_6X6_50'', CV_DICT_6X6_50),
      (''DICT_6X6_100'', CV_DICT_6X6_100),
      (''DICT_6X6_250'', CV_DICT_6X6_250),
      (''DICT_6X6_1000'', CV_DICT_6X6_1000),
      (''DICT_7X7_50'', CV_DICT_7X7_50),
      (''DICT_7X7_100'', CV_DICT_7X7_100),
      (''DICT_7X7_250'', CV_DICT_7X7_250),
      (''DICT_7X7_1000'', CV_DICT_7X7_1000),
      (''DICT_ARUCO_ORIGINAL'', CV_DICT_ARUCO_ORIGINAL)]"

definition dictionary_keys :: "string list" where
  "dictionary_keys = map fst ARUCO_DICTIONARIES"

text \<open>
  Python's \<^verbatim>\<open>repr\<close> of a list of strings, as the f-string prints
  \<^verbatim>\<open>list(ARUCO_DICTIONARIES.keys())\<close>: each key between single quotes, the
  keys separated by a comma and a space, the whole between square brackets.
\<close>

definition py_repr_str :: "string \<Rightarrow> string" where
  "py_repr_str s = [CHR 0x27] @ s @ [CHR 0x27]"

fun py_join :: "string \<Rightarrow> string list \<Rightarrow> string" where
  "py_join sep [] = []"
| "py_join sep [x] = x"
| "py_join sep (x # y # ys) = x @ sep @ py_join sep (y # ys)"

definition py_repr_str_list :: "string list \<Rightarrow> string" where
  "py_repr_str_list ks = ''['' @ py_join '', '' (map py_repr_str ks) @ '']''"

text \<open>
  \<^verbatim>\<open>
  if name not in ARUCO_DICTIONARIES:
      raise ValueError(f"Unknown ArUco dictionary: {name}. "
                       f"Available: {list(ARUCO_DICTIONARIES.keys())}")
  return cv2.aruco.getPredefinedDictionary(ARUCO_DICTIONARIES[name])
  \<close>
  The dictionary object OpenCV returns is represented by its identifier.
\<close>

definition get_aruco_dictionary :: "string \<Rightarrow> error + predefined_dictionary" where
  "get_aruco_dictionary name =
     (if name \<notin> set dictionary_keys then
        Inl (ValueError (''Unknown ArUco dictionary: '' @ name @ ''. '' @
                         ''Available: '' @ py_repr_str_list dictionary_keys))
      else
        (case map_of ARUCO_DICTIONARIES name of
           None \<Rightarrow> Inl KeyError
         | Some d \<Rightarrow> Inr d))"

subsection \<open>detector.py: confidence and rotation\<close>

type_synonym point = "real \<times> real"

text \<open>\<^verbatim>\<open>np.sqrt(np.sum((p2 - p1) ** 2))\<close> for two points.\<close>

definition side_length :: "point \<Rightarrow> point \<Rightarrow> real" where
  "side_length p1 p2 = sqrt ((fst p2 - fst p1)\<^sup>2 + (snd p2 - snd p1)\<^sup>2)"

text \<open>\<^verbatim>\<open>np.mean\<close> and \<^verbatim>\<open>np.var\<close> (the population variance) of a list.\<close>

definition np_mean :: "real list \<Rightarrow> real" where
  "np_mean xs = sum_list xs / of_nat (length xs)"

definition np_var :: "real list \<Rightarrow> real" where
  "np_var xs = np_mean (map (\<lambda>x. (x - np_mean xs)\<^sup>2) xs)"

text \<open>
  \<^verbatim>\<open>
  sides = []
  for i in range(4):
      p1 = corners[i]; p2 = corners[(i + 1) % 4]
      sides.append(np.sqrt(np.sum((p2 - p1) ** 2)))
  mean_side = np.mean(sides)
  if mean_side == 0:
      return 0.0
  variance = np.var(sides) / (mean_side ** 2)
  confidence = math.exp(-5 * variance)
  return min(1.0, max(0.0, confidence))
  \<close>
  The corners are the rows of an array of shape (n, 2); indexing a row beyond
  the last one raises IndexError.
\<close>

definition calculate_confidence :: "point list \<Rightarrow> error + real" where
  "calculate_confidence corners =
     (if length corners < 4 then Inl IndexError
      else
        let sides = map (\<lambda>i. side_length (corners ! i) (corners ! ((i + 1) mod 4))) [0..<4];
            mean_side = np_mean sides
        in if mean_side = 0 then Inr 0
           else
             let variance = np_var sides / mean_side\<^sup>2;
                 confidence = exp (- 5 * variance)
             in Inr (min 1 (max 0 confidence)))"

text \<open>
  \<^verbatim>\<open>math.atan2(y, x)\<close> on the reals: the angle of the point \<open>(x, y)\<close>, in
  \<open>(-\<pi>, \<pi>]\<close>, and 0 at the origin.
\<close>

definition py_atan2 :: "real \<Rightarrow> real \<Rightarrow> real" where
  "py_atan2 y x =
     (if 0 < x then arctan (y / x)
      else if x < 0 then (if 0 \<le> y then arctan (y / x) + pi else arctan (y / x) - pi)
      else if 0 < y then pi / 2
      else if y < 0 then - (pi / 2)
      else 0)"

text \<open>\<^verbatim>\<open>math.degrees\<close>.\<close>

definition py_degrees :: "real \<Rightarrow> real" where
  "py_degrees r = r * (180 / pi)"

text \<open>
  \<^verbatim>\<open>
  top_left = corners[0]; top_right = corners[1]
  dx = top_right[0] - top_left[0]
  dy = top_right[1] - top_left[1]
  angle_rad = math.atan2(dy, dx)
  angle_deg = math.degrees(angle_rad)
  return angle_deg
  \<close>
\<close>

definition calculate_rotation :: "point list \<Rightarrow> error + real" where
  "calculate_rotation corners =
     (if length corners < 2 then Inl IndexError
      else
        let top_left = corners ! 0;
            top_right = corners ! 1;
            dx = fst top_right - fst top_left;
            dy = snd top_right - snd top_left;
            angle_rad = py_atan2 dy dx;
            angle_deg = py_degrees angle_rad
        in Inr angle_deg)"

text \<open>
  Python's \<^verbatim>\<open>round(x, ndigits)\<close>: the nearest multiple of \<open>10^(-ndigits)\<close>, a tie
  going to the even one.
\<close>

definition round_half_even :: "real \<Rightarrow> int" where
  "round_half_even x =
     (let n = \<lfloor>x\<rfloor>; r = x - of_int n
      in if r < 1 / 2 then n
         else if 1 / 2 < r then n + 1
         else if even n then n else n + 1)"

definition py_round :: "real \<Rightarrow> nat \<Rightarrow> real" where
  "py_round x ndigits = of_int (round_half_even (x * 10 ^ ndigits)) / 10 ^ ndigits"

text \<open>
  The confidence as the specification words it, for the four corners
  \<open>p0, p1, p2, p3\<close>, written out on the coordinates and independently of the
  code: the four consecutive side lengths (Euclidean distances), the last one
  wrapping from \<open>p3\<close> to \<open>p0\<close>; the population variance of the sides over the
  square of their mean; 0 when the mean is 0, and \<open>exp (-5 * variance)\<close> clamped
  to \<open>[0, 1]\<close> otherwise.
\<close>

definition spec_confidence :: "point \<Rightarrow> point \<Rightarrow> point \<Rightarrow> point \<Rightarrow> real" where
  "spec_confidence p0 p1 p2 p3 =
     (let s0 = sqrt ((fst p1 - fst p0)\<^sup>2 + (snd p1 - snd p0)\<^sup>2);
          s1 = sqrt ((fst p2 - fst p1)\<^sup>2 + (snd p2 - snd p1)\<^sup>2);
          s2 = sqrt ((fst p3 - fst p2)\<^sup>2 + (snd p3 - snd p2)\<^sup>2);
          s3 = sqrt ((fst p0 - fst p3)\<^sup>2 + (snd p0 - snd p3)\<^sup>2);
          m = (s0 + s1 + s2 + s3) / 4;
          pvar = ((s0 - m)\<^sup>2 + (s1 - m)\<^sup>2 + (s2 - m)\<^sup>2 + (s3 - m)\<^sup>2) / 4;
          variance = pvar / m\<^sup>2
      in if m = 0 then 0 else min 1 (max 0 (exp (- 5 * variance))))"

subsection \<open>detector.py: marker assembly and ordering\<close>

text \<open>The dict appended to \<^verbatim>\<open>markers\<close> for one detection.\<close>

record marker =
  marker_id :: int
  latitude :: real
  longitude :: real
  pixel_x :: int
  pixel_y :: int
  corner_pixels :: "real list list"
  corner_coords :: "real list list"
  confidence :: real
  rotation_deg :: real

text \<open>
  What \<^verbatim>\<open>detector.detectMarkers(gray)\<close> returns: the corner arrays
  (\<^verbatim>\<open>corners[i][0]\<close>, of shape (4, 2)) and the identifiers, which are \<^verbatim>\<open>None\<close>
  when nothing was found.
\<close>

record detector_output =
  det_corners :: "point list list"
  det_ids :: "int list option"

text \<open>
  The external detection capability: grayscale conversion and
  \<^verbatim>\<open>detectMarkers\<close> with the tuned parameters, for a dictionary and an image.
  It may raise.
\<close>

type_synonym detector = "predefined_dictionary \<Rightarrow> image \<Rightarrow> error + detector_output"

text \<open>
  The body of the loop over the detections (lines 161 to 193). The mean of an
  array without rows is NaN, on which \<^verbatim>\<open>int\<close> in \<^verbatim>\<open>pixel_to_coords\<close> raises
  ValueError.
\<close>

definition make_marker :: "affine \<Rightarrow> int \<Rightarrow> point list \<Rightarrow> error + marker" where
  "make_marker transform mid corner_px =
     (if corner_px = [] then Inl (ValueError ''cannot convert float NaN to integer'')
      else
        let center_x = np_mean (map fst corner_px);
            center_y = np_mean (map snd corner_px);
            (center_lng, center_lat) = pixel_to_coords transform center_x center_y;
            coords = map (\<lambda>(px, py).
                       case pixel_to_coords transform px py of (lng, lat) \<Rightarrow> [lat, lng]) corner_px
        in case calculate_confidence corner_px of
             Inl e \<Rightarrow> Inl e
           | Inr conf \<Rightarrow>
               (case calculate_rotation corner_px of
                  Inl e \<Rightarrow> Inl e
                | Inr rotation \<Rightarrow>
                    Inr \<lparr>marker_id = mid,
                         latitude = center_lat,
                         longitude = center_lng,
                         pixel_x = py_int center_x,
                         pixel_y = py_int center_y,
                         corner_pixels = map (\<lambda>(px, py). [px, py]) corner_px,
                         corner_coords = coords,
                         confidence = py_round conf 4,
                         rotation_deg = py_round rotation 2\<rparr>))"

text \<open>
  \<^verbatim>\<open>for i, marker_id in enumerate(ids.flatten())\<close>, appending one marker for
  each identifier, from the corners at the same index.
\<close>

fun build_markers :: "affine \<Rightarrow> point list list \<Rightarrow> nat \<Rightarrow> int list \<Rightarrow> error + marker list" where
  "build_markers transform corners i [] = Inr []"
| "build_markers transform corners i (mid # ids) =
     (if length corners \<le> i then Inl IndexError
      else
        case make_marker transform mid (corners ! i) of
          Inl e \<Rightarrow> Inl e
        | Inr m \<Rightarrow>
            (case build_markers transform corners (Suc i) ids of
               Inl e \<Rightarrow> Inl e
             | Inr ms \<Rightarrow> Inr (m # ms)))"

text \<open>The list \<^verbatim>\<open>markers\<close> before it is sorted (lines 157 to 193).\<close>

definition assemble_markers :: "affine \<Rightarrow> detector_output \<Rightarrow> error + marker list" where
  "assemble_markers transform out =
     (case det_ids out of
        None \<Rightarrow> Inr []
      | Some ids \<Rightarrow> build_markers transform (det_corners out) 0 ids)"

text \<open>
  \<^verbatim>\<open>markers.sort(key=lambda m: m["marker_id"])\<close>: Python's sort is stable, as
  is \<open>sort_key\<close>.
\<close>

definition detect_aruco_markers ::
  "detector \<Rightarrow> image \<Rightarrow> affine \<Rightarrow> string \<Rightarrow> error + marker list" where
  "detect_aruco_markers detectMarkers img transform dictionary_name =
     (case get_aruco_dictionary dictionary_name of
        Inl e \<Rightarrow> Inl e
      | Inr aruco_dict \<Rightarrow>
          (case detectMarkers aruco_dict img of
             Inl e \<Rightarrow> Inl e
           | Inr out \<Rightarrow>
               (case assemble_markers transform out of
                  Inl e \<Rightarrow> Inl e
                | Inr markers \<Rightarrow> Inr (sort_key marker_id markers))))"

text \<open>
  What the detector returns by its contract: as many corner arrays as
  identifiers, each of four corners.
\<close>

definition detector_output_ok :: "detector_output \<Rightarrow> bool" where
  "detector_output_ok out =
     (case det_ids out of
        None \<Rightarrow> True
      | Some ids \<Rightarrow>
          length (det_corners out) = length ids \<and>
          list_all (\<lambda>c. length c = 4) (det_corners out))"

subsection \<open>main.py: the request handler\<close>

record detection_request =
  geotiff_url :: string
  dictionary :: string

record detection_response =
  success :: bool
  marker_count :: nat
  markers :: "marker list"
  resp_dictionary :: string
  resp_geotiff_url :: string

text \<open>
  How a run ends when it does not return a response: the \<^verbatim>\<open>HTTPException\<close> of
  the handler, with its status code and the exception it reports, or an
  exception raised outside the \<^verbatim>\<open>try\<close> body, which no handler catches.
\<close>

datatype failure = HTTPException nat error | Uncaught error

text \<open>
  \<^verbatim>\<open>
  temp_file = None
  try:
      temp_file = await download_geotiff(request.geotiff_url)
      image, transform, crs = load_geotiff_for_detection(temp_file)
      raw_markers = detect_aruco_markers(image, transform, request.dictionary)
      markers = [DetectedMarker(**m) for m in raw_markers]
      return DetectionResponse(success=True, marker_count=len(markers), ...)
  except Exception as e:
      raise HTTPException(status_code=500, detail=f"Detection failed: {str(e)}")
  finally:
      if temp_file:
          cleanup_temp_file(temp_file)
  \<close>
  The variable \<^verbatim>\<open>temp_file\<close> is assigned only when \<^verbatim>\<open>download_geotiff\<close>
  returns; the \<^verbatim>\<open>finally\<close> block tests it (\<^verbatim>\<open>None\<close> and the empty string are
  false). The run takes the world before it and gives the world after it.

  \<open>run_stages\<close> is the body of the \<^verbatim>\<open>try\<close> block: it gives the world after the
  body, the value of \<^verbatim>\<open>temp_file\<close> at that point, and the response or the
  exception the body ended with. The markers already satisfy the constraints
  of \<^verbatim>\<open>DetectedMarker\<close>, so the conversion to response models keeps them as
  they are. \<open>detect_markers\<close> adds the \<^verbatim>\<open>except\<close> and \<^verbatim>\<open>finally\<close> clauses.
\<close>

definition run_stages ::
  "(string \<Rightarrow> error + dataset option) \<Rightarrow> string \<Rightarrow> detector \<Rightarrow> world \<Rightarrow> detection_request \<Rightarrow>
     world \<times> string option \<times> (error + detection_response)" where
  "run_stages http_get temp_path detectMarkers w request =
     (case download_geotiff http_get temp_path w (geotiff_url request) of
        (w1, Inl e) \<Rightarrow> (w1, None, Inl e)
      | (w1, Inr temp_file) \<Rightarrow>
          (w1, Some temp_file,
           case load_geotiff_for_detection w1 temp_file of
             Inl e \<Rightarrow> Inl e
           | Inr (img, transform, crs) \<Rightarrow>
               (case detect_aruco_markers detectMarkers img transform (dictionary request) of
                  Inl e \<Rightarrow> Inl e
                | Inr raw_markers \<Rightarrow>
                    Inr \<lparr>success = True,
                         marker_count = length raw_markers,
                         markers = raw_markers,
                         resp_dictionary = dictionary request,
                         resp_geotiff_url = geotiff_url request\<rparr>)))"

definition detect_markers ::
  "(string \<Rightarrow> error + dataset option) \<Rightarrow> string \<Rightarrow> detector \<Rightarrow> world \<Rightarrow> detection_request \<Rightarrow>
     world \<times> (failure + detection_response)" where
  "detect_markers http_get temp_path detectMarkers w request =
     (case run_stages http_get temp_path detectMarkers w request of
        (w1, temp_file, outcome) \<Rightarrow>
          (let result = (case outcome of
                           Inl e \<Rightarrow> Inl (HTTPException 500 e)
                         | Inr response \<Rightarrow> Inr response)
           in (case temp_file of
                 None \<Rightarrow> (w1, result)
               | Some p \<Rightarrow>
                   if p \<noteq> [] then
                     (case cleanup_temp_file w1 p of
                        Inl e \<Rightarrow> (w1, Inl (Uncaught e))
                      | Inr w2 \<Rightarrow> (w2, result))
                   else (w1, result))))"

subsection \<open>Example inputs\<close>

text \<open>
  A marker of side 1000 turned by almost half a turn: its top edge runs from
  (1000, 1000.01) to (0, 1000).
\<close>

definition tilted_corners :: "point list" where
  "tilted_corners = [(1000, 100001 / 100), (0, 1000), (0, 0), (1000, 1 / 100)]"

text \<open>A detector that returns the same output for every dictionary and image.\<close>

definition const_detector :: "detector_output \<Rightarrow> detector" where
  "const_detector out aruco_dict img = Inr out"

definition blank_image :: image where
  "blank_image = \<lparr>img_dtype = UInt8, img_data = [[[0, 0, 0]]]\<rparr>"

text \<open>The square marker (100,100), (120,100), (120,120), (100,120).\<close>

definition square_corners :: "point list" where
  "square_corners = [(100, 100), (120, 100), (120, 120), (100, 120)]"

text \<open>
  A detector output with the identifiers 7, 3, 7 in this order, the two
  detections of marker 7 at different places.
\<close>

definition three_detections :: detector_output where
  "three_detections =
     \<lparr>det_corners =
        [[(100, 100), (120, 100), (120, 120), (100, 120)],
         [(300, 300), (340, 300), (340, 340), (300, 340)],
         [(500, 100), (520, 100), (520, 120), (500, 120)]],
      det_ids = Some [7, 3, 7]\<rparr>"

text \<open>
  Three rasters of one row and two columns: a 16-bit grayscale raster whose
  largest value is 100, an 8-bit raster of two bands, and a 16-bit raster of
  three bands whose largest value is 1000; and a file system holding them.
\<close>

definition gray16 :: dataset where
  "gray16 =
     \<lparr>ds_dtype = UInt16, ds_height = 1, ds_width = 2, ds_bands = [[[100, 50]]],
      ds_transform = identity_affine, ds_crs = ''EPSG:4326''\<rparr>"

definition two_band :: dataset where
  "two_band =
     \<lparr>ds_dtype = UInt8, ds_height = 1, ds_width = 2, ds_bands = [[[1, 2]], [[3, 4]]],
      ds_transform = identity_affine, ds_crs = ''EPSG:4326''\<rparr>"

definition rgb16 :: dataset where
  "rgb16 =
     \<lparr>ds_dtype = UInt16, ds_height = 1, ds_width = 2,
      ds_bands = [[[1000, 500]], [[250, 0]], [[100, 50]]],
      ds_transform = identity_affine, ds_crs = ''EPSG:4326''\<rparr>"

definition raster_world :: world where
  "raster_world =
     \<lparr>files = [''/data/gray16.tif'' \<mapsto> Some gray16,
               ''/data/two.tif'' \<mapsto> Some two_band,
               ''/data/rgb16.tif'' \<mapsto> Some rgb16],
      undeletable = {}\<rparr>"

text \<open>
  For the request handler: an empty file system, a retrieval that fails with
  an HTTP error status, and a request.
\<close>

definition empty_world :: world where
  "empty_world = \<lparr>files = Map.empty, undeletable = {}\<rparr>"

definition failing_http :: "string \<Rightarrow> error + dataset option" where
  "failing_http url = Inl HTTPStatusError"

definition demo_request :: detection_request where
  "demo_request = \<lparr>geotiff_url = ''https://example.org/ortho.tif'', dictionary = ''DICT_7X7_1000''\<rparr>"

text \<open>
  An 8-bit raster of four bands (red, green, blue, alpha) and an 8-bit
  grayscale raster, one row and two columns each, and a file system holding
  them with the 16-bit grayscale raster and the raster of two bands.
\<close>

definition rgba8 :: dataset where
  "rgba8 =
     \<lparr>ds_dtype = UInt8, ds_height = 1, ds_width = 2,
      ds_bands = [[[1, 2]], [[3, 4]], [[5, 6]], [[7, 8]]],
      ds_transform = identity_affine, ds_crs = ''EPSG:4326''\<rparr>"

definition gray8 :: dataset where
  "gray8 =
     \<lparr>ds_dtype = UInt8, ds_height = 1, ds_width = 2, ds_bands = [[[9, 8]]],
      ds_transform = identity_affine, ds_crs = ''EPSG:4326''\<rparr>"

definition band_world :: world where
  "band_world =
     \<lparr>files = [''/data/rgba8.tif'' \<mapsto> Some rgba8,
               ''/data/gray8.tif'' \<mapsto> Some gray8,
               ''/data/two.tif'' \<mapsto> Some two_band],
      undeletable = {}\<rparr>"

section \<open>Properties of the coordinate mapper\<close>

lemma py_int_of_int: "py_int (of_int n) = n"
  by (simp add: py_int_def)

lemma py_int_abs_le: "\<bar>of_int (py_int x)\<bar> \<le> \<bar>x\<bar>"
proof (cases "0 \<le> x")
  case True
  then show ?thesis by (simp add: py_int_def)
next
  case False
  then have "x \<le> of_int \<lceil>x\<rceil>" and "\<lceil>x\<rceil> \<le> 0"
    by simp_all
  with False show ?thesis by (simp add: py_int_def)
qed

lemma py_int_diff_less: "\<bar>x - of_int (py_int x)\<bar> < 1"
proof (cases "0 \<le> x")
  case True
  then show ?thesis by (simp add: py_int_def) linarith
next
  case False
  then show ?thesis by (simp add: py_int_def) linarith
qed

text \<open>
  C2, as stated, fails: under the identity transform pixel (100, 100) is mapped
  to (100.5, 100.5), the centre of that pixel, not to (100, 100).
\<close>

theorem pixel_to_coords_identity_counterexample:
  "pixel_to_coords identity_affine 100 100 = (201 / 2, 201 / 2) \<and>
   pixel_to_coords identity_affine 100 100 \<noteq> (100, 100) \<and>
   pixel_to_coords identity_affine 100 100 \<noteq> plain_affine identity_affine 100 100"
  by (simp add: pixel_to_coords_def xy_def py_int_def identity_affine_def plain_affine_def)

text \<open>
  C2, amended: \<^verbatim>\<open>pixel_to_coords\<close> applies the six-coefficient affine mapping at
  the centre of the pixel with integer indices \<open>col = int(pixel_x)\<close>,
  \<open>row = int(pixel_y)\<close>, that is \<open>x = a*(col+0.5) + b*(row+0.5) + c\<close> and
  \<open>y = d*(col+0.5) + e*(row+0.5) + f\<close>: the plain affine image of \<open>(col, row)\<close>
  shifted by \<open>((a+b)/2, (d+e)/2)\<close>. For the identity transform, pixel (100, 100)
  maps to (100.5, 100.5).
\<close>

theorem pixel_to_coords_affine_center:
  "pixel_to_coords t px py =
     (aff_a t * (of_int (py_int px) + 1 / 2) + aff_b t * (of_int (py_int py) + 1 / 2) + aff_c t,
      aff_d t * (of_int (py_int px) + 1 / 2) + aff_e t * (of_int (py_int py) + 1 / 2) + aff_f t) \<and>
   fst (pixel_to_coords t px py) =
     fst (plain_affine t (py_int py) (py_int px)) + (aff_a t + aff_b t) / 2 \<and>
   snd (pixel_to_coords t px py) =
     snd (plain_affine t (py_int py) (py_int px)) + (aff_d t + aff_e t) / 2 \<and>
   pixel_to_coords identity_affine 100 100 = (201 / 2, 201 / 2)"
  by (simp add: pixel_to_coords_def xy_def Let_def plain_affine_def identity_affine_def
      py_int_def algebra_simps)

text \<open>
  C3, as stated, fails: \<^verbatim>\<open>int(10.6)\<close> is 10, so \<^verbatim>\<open>pixel_to_coords(t, 10.6, 10.6)\<close>
  applies the transform at pixel (10, 10), not at (11, 11).
\<close>

theorem pixel_to_coords_rounding_counterexample:
  "pixel_to_coords identity_affine (53 / 5) (53 / 5) = xy identity_affine 10 10 \<and>
   pixel_to_coords identity_affine (53 / 5) (53 / 5) \<noteq> xy identity_affine 11 11"
  by (simp add: pixel_to_coords_def xy_def py_int_def identity_affine_def)

text \<open>
  C3, amended: for every real-valued pixel input, \<^verbatim>\<open>pixel_to_coords\<close> truncates
  both coordinates toward zero to an integer pixel index before applying the
  transform: the index \<open>n\<close> used for a coordinate \<open>x\<close> satisfies \<open>|n| \<le> |x|\<close> and
  \<open>|x - n| < 1\<close>, and the result is the one obtained at the truncated pixel.
\<close>

theorem pixel_to_coords_truncates:
  "pixel_to_coords t px py = xy t (py_int py) (py_int px) \<and>
   pixel_to_coords t px py = pixel_to_coords t (of_int (py_int px)) (of_int (py_int py)) \<and>
   \<bar>of_int (py_int px)\<bar> \<le> \<bar>px\<bar> \<and> \<bar>px - of_int (py_int px)\<bar> < 1 \<and>
   \<bar>of_int (py_int py)\<bar> \<le> \<bar>py\<bar> \<and> \<bar>py - of_int (py_int py)\<bar> < 1"
  using py_int_abs_le py_int_diff_less
  by (simp add: pixel_to_coords_def py_int_of_int)

section \<open>Properties of the geometry analyzer\<close>

lemma np_mean4: "np_mean [a, b, c, d] = (a + b + c + d) / 4"
  by (simp add: np_mean_def)

lemma np_var4:
  "np_var [a, b, c, d] =
     ((a - (a + b + c + d) / 4)\<^sup>2 + (b - (a + b + c + d) / 4)\<^sup>2 +
      (c - (a + b + c + d) / 4)\<^sup>2 + (d - (a + b + c + d) / 4)\<^sup>2) / 4"
  unfolding np_var_def list.map np_mean4 ..

lemma sides4:
  "map (\<lambda>i. side_length ([p0, p1, p2, p3] ! i) ([p0, p1, p2, p3] ! ((i + 1) mod 4))) [0..<4] =
     [side_length p0 p1, side_length p1 p2, side_length p2 p3, side_length p3 p0]"
  by (simp add: upt_rec)

lemma spec_confidence_sides:
  "spec_confidence p0 p1 p2 p3 =
     (let s0 = side_length p0 p1; s1 = side_length p1 p2;
          s2 = side_length p2 p3; s3 = side_length p3 p0;
          m = (s0 + s1 + s2 + s3) / 4;
          pvar = ((s0 - m)\<^sup>2 + (s1 - m)\<^sup>2 + (s2 - m)\<^sup>2 + (s3 - m)\<^sup>2) / 4;
          variance = pvar / m\<^sup>2
      in if m = 0 then 0 else min 1 (max 0 (exp (- 5 * variance))))"
  unfolding spec_confidence_def side_length_def ..

lemma confidence_four_corners:
  "calculate_confidence [p0, p1, p2, p3] = Inr (spec_confidence p0 p1 p2 p3)"
  unfolding calculate_confidence_def spec_confidence_sides sides4 Let_def np_mean4 np_var4
  by simp

lemma side_length_nonneg: "0 \<le> side_length p q"
  by (simp add: side_length_def)

lemma side_length_same: "side_length p p = 0"
  by (simp add: side_length_def)

lemma side_length_zero_iff: "side_length p q = 0 \<longleftrightarrow> p = q"
proof
  assume "side_length p q = 0"
  then have "(fst q - fst p)\<^sup>2 + (snd q - snd p)\<^sup>2 = 0"
    by (simp add: side_length_def)
  then have "fst q = fst p" and "snd q = snd p"
    by simp_all
  then show "p = q"
    by (simp add: prod_eq_iff)
next
  assume "p = q"
  then show "side_length p q = 0"
    by (simp add: side_length_same)
qed

lemma spec_confidence_coincident: "spec_confidence p p p p = 0"
  by (simp add: spec_confidence_sides side_length_same)

lemma spec_confidence_equilateral:
  assumes "side_length p0 p1 = s" "side_length p1 p2 = s" "side_length p2 p3 = s"
    "side_length p3 p0 = s" "s \<noteq> 0"
  shows "spec_confidence p0 p1 p2 p3 = 1"
  using assms by (simp add: spec_confidence_sides)

lemma spec_confidence_range:
  "0 \<le> spec_confidence p0 p1 p2 p3 \<and> spec_confidence p0 p1 p2 p3 \<le> 1"
  by (simp add: spec_confidence_sides Let_def)

lemma spec_confidence_zero_iff:
  "spec_confidence p0 p1 p2 p3 = 0 \<longleftrightarrow> p0 = p1 \<and> p1 = p2 \<and> p2 = p3"
proof -
  let ?m = "(side_length p0 p1 + side_length p1 p2 + side_length p2 p3 + side_length p3 p0) / 4"
  have nn: "0 \<le> side_length p0 p1" "0 \<le> side_length p1 p2" "0 \<le> side_length p2 p3"
    "0 \<le> side_length p3 p0"
    by (rule side_length_nonneg)+
  have m0: "?m = 0 \<longleftrightarrow> p0 = p1 \<and> p1 = p2 \<and> p2 = p3"
  proof
    assume "?m = 0"
    then have "side_length p0 p1 + side_length p1 p2 + side_length p2 p3 + side_length p3 p0 = 0"
      by simp
    with nn have "side_length p0 p1 = 0" "side_length p1 p2 = 0" "side_length p2 p3 = 0"
      by linarith+
    then show "p0 = p1 \<and> p1 = p2 \<and> p2 = p3"
      by (simp add: side_length_zero_iff)
  next
    assume "p0 = p1 \<and> p1 = p2 \<and> p2 = p3"
    then show "?m = 0"
      by (simp add: side_length_same)
  qed
  have pos: "0 < min 1 (max 0 (exp x))" for x :: real
    by simp
  have "spec_confidence p0 p1 p2 p3 = 0 \<longleftrightarrow> ?m = 0"
    unfolding spec_confidence_sides Let_def using pos by (auto simp: less_le)
  with m0 show ?thesis by simp
qed

lemma spec_confidence_rectangle:
  "spec_confidence (0, 0) (20, 0) (20, 10) (0, 10) = exp (- (5 / 9))"
  by (simp add: spec_confidence_def)

text \<open>
  C4: on four corners, \<^verbatim>\<open>calculate_confidence\<close> returns the value the
  specification describes, written out on the coordinates: with the four
  wrapping Euclidean side lengths \<open>s0, s1, s2, s3\<close> and their mean \<open>m\<close>, the
  result is 0 when \<open>m = 0\<close> and otherwise \<open>exp (-5 * variance)\<close> clamped to
  \<open>[0, 1]\<close>, where \<open>variance\<close> is the population variance of the sides over
  \<open>m\<^sup>2\<close>. The result is 0 exactly when the four corners coincide, it is 1 for
  every quadrilateral with four equal non-zero sides, it is 1 for the square
  (0,0), (10,0), (10,10), (0,10), and it is \<open>exp (-5/9)\<close> for the 20 by 10
  rectangle, whose sides 20, 10, 20, 10 have mean 15 and variance 25.
\<close>

theorem calculate_confidence_spec:
  "calculate_confidence [p0, p1, p2, p3] =
     Inr (let s0 = sqrt ((fst p1 - fst p0)\<^sup>2 + (snd p1 - snd p0)\<^sup>2);
              s1 = sqrt ((fst p2 - fst p1)\<^sup>2 + (snd p2 - snd p1)\<^sup>2);
              s2 = sqrt ((fst p3 - fst p2)\<^sup>2 + (snd p3 - snd p2)\<^sup>2);
              s3 = sqrt ((fst p0 - fst p3)\<^sup>2 + (snd p0 - snd p3)\<^sup>2);
              m = (s0 + s1 + s2 + s3) / 4;
              pvar = ((s0 - m)\<^sup>2 + (s1 - m)\<^sup>2 + (s2 - m)\<^sup>2 + (s3 - m)\<^sup>2) / 4;
              variance = pvar / m\<^sup>2
          in if m = 0 then 0 else min 1 (max 0 (exp (- 5 * variance)))) \<and>
   calculate_confidence [p0, p1, p2, p3] = Inr (spec_confidence p0 p1 p2 p3) \<and>
   calculate_confidence [p, p, p, p] = Inr 0 \<and>
   (calculate_confidence [p0, p1, p2, p3] = Inr 0 \<longleftrightarrow> p0 = p1 \<and> p1 = p2 \<and> p2 = p3) \<and>
   (sqrt ((fst p1 - fst p0)\<^sup>2 + (snd p1 - snd p0)\<^sup>2) = s \<and>
    sqrt ((fst p2 - fst p1)\<^sup>2 + (snd p2 - snd p1)\<^sup>2) = s \<and>
    sqrt ((fst p3 - fst p2)\<^sup>2 + (snd p3 - snd p2)\<^sup>2) = s \<and>
    sqrt ((fst p0 - fst p3)\<^sup>2 + (snd p0 - snd p3)\<^sup>2) = s \<and> s \<noteq> 0 \<longrightarrow>
      calculate_confidence [p0, p1, p2, p3] = Inr 1) \<and>
   calculate_confidence [(0, 0), (10, 0), (10, 10), (0, 10)] = Inr 1 \<and>
   calculate_confidence [(0, 0), (20, 0), (20, 10), (0, 10)] = Inr (exp (- (5 / 9))) \<and>
   calculate_confidence [(0, 0), (20, 0), (20, 10), (0, 10)] \<noteq> Inr 1"
proof (intro conjI impI)
  show "calculate_confidence [p0, p1, p2, p3] =
     Inr (let s0 = sqrt ((fst p1 - fst p0)\<^sup>2 + (snd p1 - snd p0)\<^sup>2);
              s1 = sqrt ((fst p2 - fst p1)\<^sup>2 + (snd p2 - snd p1)\<^sup>2);
              s2 = sqrt ((fst p3 - fst p2)\<^sup>2 + (snd p3 - snd p2)\<^sup>2);
              s3 = sqrt ((fst p0 - fst p3)\<^sup>2 + (snd p0 - snd p3)\<^sup>2);
              m = (s0 + s1 + s2 + s3) / 4;
              pvar = ((s0 - m)\<^sup>2 + (s1 - m)\<^sup>2 + (s2 - m)\<^sup>2 + (s3 - m)\<^sup>2) / 4;
              variance = pvar / m\<^sup>2
          in if m = 0 then 0 else min 1 (max 0 (exp (- 5 * variance))))"
    unfolding confidence_four_corners spec_confidence_def ..
  show "calculate_confidence [p0, p1, p2, p3] = Inr (spec_confidence p0 p1 p2 p3)"
    by (rule confidence_four_corners)
  show "calculate_confidence [p, p, p, p] = Inr 0"
    by (simp add: confidence_four_corners spec_confidence_coincident)
  show "calculate_confidence [p0, p1, p2, p3] = Inr 0 \<longleftrightarrow> p0 = p1 \<and> p1 = p2 \<and> p2 = p3"
    by (simp add: confidence_four_corners spec_confidence_zero_iff)
  show "calculate_confidence [p0, p1, p2, p3] = Inr 1"
    if "sqrt ((fst p1 - fst p0)\<^sup>2 + (snd p1 - snd p0)\<^sup>2) = s \<and>
        sqrt ((fst p2 - fst p1)\<^sup>2 + (snd p2 - snd p1)\<^sup>2) = s \<and>
        sqrt ((fst p3 - fst p2)\<^sup>2 + (snd p3 - snd p2)\<^sup>2) = s \<and>
        sqrt ((fst p0 - fst p3)\<^sup>2 + (snd p0 - snd p3)\<^sup>2) = s \<and> s \<noteq> 0"
  proof -
    from that have "side_length p0 p1 = s" "side_length p1 p2 = s" "side_length p2 p3 = s"
      "side_length p3 p0 = s" "s \<noteq> 0"
      by (simp_all add: side_length_def)
    then have "spec_confidence p0 p1 p2 p3 = 1"
      by (rule spec_confidence_equilateral)
    then show ?thesis
      by (simp add: confidence_four_corners)
  qed
  show "calculate_confidence [(0, 0), (10, 0), (10, 10), (0, 10)] = Inr 1"
    by (simp add: confidence_four_corners spec_confidence_def)
  show "calculate_confidence [(0, 0), (20, 0), (20, 10), (0, 10)] = Inr (exp (- (5 / 9)))"
    by (simp only: confidence_four_corners spec_confidence_rectangle)
  show "calculate_confidence [(0, 0), (20, 0), (20, 10), (0, 10)] \<noteq> Inr 1"
    by (simp add: confidence_four_corners spec_confidence_rectangle)
qed

lemma sqrt_25: "sqrt 25 = 5"
  by (rule real_sqrt_unique) simp_all

theorem calculate_confidence_spec_witness:
  "calculate_confidence [(1, 1), (4, 5), (8, 2), (5, - 2)] = Inr 1 \<and>
   calculate_confidence [(3, 7), (3, 7), (3, 7), (3, 7)] = Inr 0 \<and>
   calculate_confidence [(0, 0), (20, 0), (20, 10), (0, 10)] = Inr (exp (- (5 / 9)))"
proof -
  let ?a = "(1, 1) :: point" and ?b = "(4, 5) :: point"
    and ?c = "(8, 2) :: point" and ?d = "(5, - 2) :: point"
  have s: "sqrt ((fst ?b - fst ?a)\<^sup>2 + (snd ?b - snd ?a)\<^sup>2) = 5 \<and>
    sqrt ((fst ?c - fst ?b)\<^sup>2 + (snd ?c - snd ?b)\<^sup>2) = 5 \<and>
    sqrt ((fst ?d - fst ?c)\<^sup>2 + (snd ?d - snd ?c)\<^sup>2) = 5 \<and>
    sqrt ((fst ?a - fst ?d)\<^sup>2 + (snd ?a - snd ?d)\<^sup>2) = 5 \<and> (5::real) \<noteq> 0"
    by (simp add: sqrt_25)
  note t = calculate_confidence_spec [of ?a ?b ?c ?d "(3, 7)" 5]
  note zero = t [THEN conjunct2, THEN conjunct2, THEN conjunct1]
  note equi = t [THEN conjunct2, THEN conjunct2, THEN conjunct2, THEN conjunct2, THEN conjunct1,
      THEN mp]
  note rect = t [THEN conjunct2, THEN conjunct2, THEN conjunct2, THEN conjunct2, THEN conjunct2,
      THEN conjunct2, THEN conjunct1]
  have one: "calculate_confidence [?a, ?b, ?c, ?d] = Inr 1"
    using s by (rule equi)
  from one zero rect show ?thesis
    by (intro conjI)
qed

section \<open>Ranges of confidence and rotation\<close>

lemma py_atan2_bounds: "- pi < py_atan2 y x \<and> py_atan2 y x \<le> pi"
proof -
  have b: "- (pi / 2) < arctan (y / x)" "arctan (y / x) < pi / 2"
    using arctan_bounded[of "y / x"] by simp_all
  have p: "0 < pi" by simp
  consider (pos) "0 < x" | (neg_up) "x < 0" "0 \<le> y" | (neg_down) "x < 0" "y < 0"
    | (zero_up) "x = 0" "0 < y" | (zero_down) "x = 0" "y < 0" | (zero) "x = 0" "y = 0"
    by linarith
  then show ?thesis
  proof cases
    case pos
    then have "py_atan2 y x = arctan (y / x)" by (simp add: py_atan2_def)
    with b p show ?thesis by linarith
  next
    case neg_up
    then have "y / x \<le> 0" by (simp add: divide_nonneg_neg)
    then have "arctan (y / x) \<le> 0" by simp
    moreover from neg_up have "py_atan2 y x = arctan (y / x) + pi" by (simp add: py_atan2_def)
    ultimately show ?thesis using b p by linarith
  next
    case neg_down
    then have "0 < y / x" by (simp add: divide_neg_neg)
    then have "0 < arctan (y / x)" by simp
    moreover from neg_down have "py_atan2 y x = arctan (y / x) - pi" by (simp add: py_atan2_def)
    ultimately show ?thesis using b p by linarith
  next
    case zero_up
    then have "py_atan2 y x = pi / 2" by (simp add: py_atan2_def)
    with p show ?thesis by linarith
  next
    case zero_down
    then have "py_atan2 y x = - (pi / 2)" by (simp add: py_atan2_def)
    with p show ?thesis by linarith
  next
    case zero
    then have "py_atan2 y x = 0" by (simp add: py_atan2_def)
    with p show ?thesis by linarith
  qed
qed

lemma py_degrees_bounds:
  assumes "- pi < r" "r \<le> pi"
  shows "- 180 < py_degrees r \<and> py_degrees r \<le> 180"
proof -
  have p: "0 < pi" by simp
  have e: "py_degrees r = 180 * (r / pi)" by (simp add: py_degrees_def)
  have "- 1 < r / pi" using assms p by (simp add: pos_less_divide_eq)
  moreover have "r / pi \<le> 1" using assms p by (simp add: pos_divide_le_eq)
  ultimately show ?thesis unfolding e by linarith
qed

lemma round_half_even_le: "x \<le> of_int k \<Longrightarrow> round_half_even x \<le> k"
proof -
  assume a: "x \<le> of_int k"
  show ?thesis
  proof (cases "x = of_int k")
    case True
    then show ?thesis by (simp add: round_half_even_def)
  next
    case False
    with a have "x < of_int k" by simp
    then have "\<lfloor>x\<rfloor> < k" by (simp add: floor_less_iff)
    then show ?thesis by (simp add: round_half_even_def Let_def)
  qed
qed

lemma round_half_even_ge: "of_int k \<le> x \<Longrightarrow> k \<le> round_half_even x"
proof -
  assume "of_int k \<le> x"
  then have "k \<le> \<lfloor>x\<rfloor>" by (simp add: le_floor_iff)
  then show ?thesis by (simp add: round_half_even_def Let_def)
qed

lemma round_half_even_near: "\<bar>x - of_int k\<bar> < 1 / 2 \<Longrightarrow> round_half_even x = k"
proof -
  assume a: "\<bar>x - of_int k\<bar> < 1 / 2"
  show ?thesis
  proof (cases "of_int k \<le> x")
    case True
    with a have "\<lfloor>x\<rfloor> = k" by (intro floor_unique) (simp, linarith)
    with a True show ?thesis by (simp add: round_half_even_def Let_def)
  next
    case False
    with a have "of_int k - 1 \<le> x" "x < of_int k - 1 + 1" by linarith+
    then have "of_int (k - 1) \<le> x" "x < of_int (k - 1) + 1" by simp_all
    then have f: "\<lfloor>x\<rfloor> = k - 1" by (rule floor_unique)
    from a False have "1 / 2 < x - (of_int k - 1)" by linarith
    with f show ?thesis by (simp add: round_half_even_def Let_def)
  qed
qed

lemma py_round_bounds:
  assumes "of_int lo \<le> x" "x \<le> of_int hi"
  shows "of_int lo \<le> py_round x n \<and> py_round x n \<le> of_int hi"
proof -
  have pos: "(0::real) < 10 ^ n" by simp
  have "of_int (lo * 10 ^ n) \<le> x * 10 ^ n"
    using assms(1) pos by simp
  then have l: "lo * 10 ^ n \<le> round_half_even (x * 10 ^ n)"
    by (rule round_half_even_ge)
  have "x * 10 ^ n \<le> of_int (hi * 10 ^ n)"
    using assms(2) pos by simp
  then have h: "round_half_even (x * 10 ^ n) \<le> hi * 10 ^ n"
    by (rule round_half_even_le)
  from l have "of_int (lo * 10 ^ n) \<le> (of_int (round_half_even (x * 10 ^ n)) :: real)"
    by (simp only: of_int_le_iff)
  then have l': "of_int lo \<le> py_round x n"
    using pos by (simp add: py_round_def pos_le_divide_eq)
  from h have "(of_int (round_half_even (x * 10 ^ n)) :: real) \<le> of_int (hi * 10 ^ n)"
    by (simp only: of_int_le_iff)
  then have h': "py_round x n \<le> of_int hi"
    using pos by (simp add: py_round_def pos_divide_le_eq)
  from l' h' show ?thesis ..
qed

lemma rotation_four_corners:
  "calculate_rotation [p0, p1, p2, p3] =
     Inr (py_degrees (py_atan2 (snd p1 - snd p0) (fst p1 - fst p0)))"
  by (simp add: calculate_rotation_def Let_def)

lemma make_marker_four_corners:
  "make_marker t mid [p0, p1, p2, p3] = Inr m \<Longrightarrow>
     marker_id m = mid \<and>
     confidence m = py_round (spec_confidence p0 p1 p2 p3) 4 \<and>
     rotation_deg m = py_round (py_degrees (py_atan2 (snd p1 - snd p0) (fst p1 - fst p0))) 2"
  unfolding make_marker_def confidence_four_corners rotation_four_corners
  by (auto simp: Let_def split: prod.splits)

lemma make_marker_four_corners_ok: "\<exists>m. make_marker t mid [p0, p1, p2, p3] = Inr m"
  unfolding make_marker_def confidence_four_corners rotation_four_corners
  by (simp add: Let_def split: prod.splits)

lemma arctan_le_self_pos:
  fixes x :: real
  assumes "0 < x"
  shows "arctan x \<le> x"
proof -
  have "\<exists>z. 0 < z \<and> z < x \<and> arctan x - arctan 0 = (x - 0) * inverse (1 + z\<^sup>2)"
    using assms by (intro MVT2) (auto intro!: DERIV_arctan)
  then obtain z where z: "arctan x = x * inverse (1 + z\<^sup>2)"
    by auto
  have "inverse (1 + z\<^sup>2) \<le> 1"
    by (simp add: inverse_le_1_iff)
  then have "x * inverse (1 + z\<^sup>2) \<le> x * 1"
    using assms by (intro mult_left_mono) auto
  with z show ?thesis by simp
qed

section \<open>Properties of the assembled markers\<close>

lemma make_marker_id: "make_marker t mid c = Inr m \<Longrightarrow> marker_id m = mid"
  unfolding make_marker_def
  by (auto simp: Let_def split: if_splits prod.splits sum.splits)

lemma length4E:
  assumes "length c = 4"
  obtains p0 p1 p2 p3 where "c = [p0, p1, p2, p3]"
proof -
  from assms obtain p0 c1 where c: "c = p0 # c1" and "length c1 = 3"
    by (cases c) auto
  then obtain p1 c2 where c1: "c1 = p1 # c2" and "length c2 = 2"
    by (cases c1) auto
  then obtain p2 c3 where c2: "c2 = p2 # c3" and "length c3 = 1"
    by (cases c2) auto
  then obtain p3 where "c3 = [p3]"
    by (cases c3) auto
  with c c1 c2 have "c = [p0, p1, p2, p3]" by simp
  then show thesis by (rule that)
qed

lemma build_markers_ids: "build_markers t corners i ids = Inr ms \<Longrightarrow> map marker_id ms = ids"
proof (induction ids arbitrary: i ms)
  case Nil
  then show ?case by simp
next
  case (Cons mid ids)
  then show ?case
    by (auto split: if_splits sum.splits dest: make_marker_id)
qed

lemma build_markers_ok:
  "i + length ids \<le> length corners \<Longrightarrow> list_all (\<lambda>c. length c = 4) corners \<Longrightarrow>
     \<exists>ms. build_markers t corners i ids = Inr ms"
proof (induction ids arbitrary: i)
  case Nil
  then show ?case by simp
next
  case (Cons mid ids)
  from Cons.prems have i: "i < length corners" by simp
  with Cons.prems(2) have "length (corners ! i) = 4"
    by (simp add: list_all_length)
  then obtain p0 p1 p2 p3 where "corners ! i = [p0, p1, p2, p3]"
    by (rule length4E)
  then obtain m where m: "make_marker t mid (corners ! i) = Inr m"
    using make_marker_four_corners_ok [of t mid p0 p1 p2 p3] by auto
  from Cons.prems have "Suc i + length ids \<le> length corners" by simp
  with Cons.IH Cons.prems(2) obtain ms where "build_markers t corners (Suc i) ids = Inr ms"
    by blast
  with i m show ?case by simp
qed

lemma build_markers_all:
  assumes "\<And>mid c m. c \<in> set corners \<Longrightarrow> make_marker t mid c = Inr m \<Longrightarrow> P m"
  shows "build_markers t corners i ids = Inr ms \<Longrightarrow> list_all P ms"
proof (induction ids arbitrary: i ms)
  case Nil
  then show ?case by simp
next
  case (Cons mid ids)
  have "P m" if "\<not> length corners \<le> i" "make_marker t mid (corners ! i) = Inr m" for m
    using that assms [of "corners ! i" mid m] by simp
  with Cons show ?case
    by (auto split: if_splits sum.splits)
qed

lemma tilted_rotation:
  "calculate_rotation tilted_corners = Inr (py_degrees (arctan (1 / 100000) - pi))"
  by (simp add: calculate_rotation_def tilted_corners_def Let_def py_atan2_def)

lemma tilted_rounds_to_minus_180: "py_round (py_degrees (arctan (1 / 100000) - pi)) 2 = - 180"
proof -
  let ?a = "arctan (1 / 100000) :: real"
  have a0: "0 < ?a" by simp
  have a1: "?a \<le> 1 / 100000" by (rule arctan_le_self_pos) simp
  have p2: "2 \<le> pi" by (rule pi_ge_two)
  have p0: "0 < pi" by simp
  have e: "py_degrees (?a - pi) * 10 ^ 2 = ?a * 18000 / pi - 18000"
    using p0 by (simp add: py_degrees_def field_simps)
  have "?a * 18000 < pi / 2" using a1 p2 by linarith
  then have u: "?a * 18000 / pi < 1 / 2"
    using p0 by (simp add: pos_divide_less_eq)
  have l: "0 < ?a * 18000 / pi" using a0 p0 by simp
  have "\<bar>(?a * 18000 / pi - 18000) - of_int (- 18000)\<bar> < 1 / 2"
    using u l by simp
  then have "round_half_even (?a * 18000 / pi - 18000) = - 18000"
    by (rule round_half_even_near)
  then show ?thesis
    unfolding py_round_def e by simp
qed

text \<open>
  C5, as stated, fails: the marker whose top edge runs from (1000, 1000.01) to
  (0, 1000) has a rotation of about -179.9994 degrees, which satisfies
  \<open>-180 < r\<close>, and the two-decimal rounding of the Marker record turns it into
  exactly -180, outside the half-open interval (-180, 180].
\<close>

theorem marker_rotation_minus_180_counterexample:
  "map_sum id rotation_deg (make_marker identity_affine 7 tilted_corners) = Inr (- 180) \<and>
   map_sum id (map rotation_deg)
     (detect_aruco_markers
        (const_detector \<lparr>det_corners = [tilted_corners], det_ids = Some [7]\<rparr>)
        blank_image identity_affine ''DICT_7X7_1000'') = Inr [- 180]"
proof -
  obtain m where m: "make_marker identity_affine 7 tilted_corners = Inr m"
    using make_marker_four_corners_ok unfolding tilted_corners_def by blast
  then have "rotation_deg m = py_round (py_degrees (arctan (1 / 100000) - pi)) 2"
    unfolding make_marker_def tilted_rotation
    by (auto simp: Let_def split: if_splits prod.splits sum.splits)
  then have r: "rotation_deg m = - 180"
    by (simp only: tilted_rounds_to_minus_180)
  have d: "get_aruco_dictionary ''DICT_7X7_1000'' = Inr CV_DICT_7X7_1000"
    by (simp add: get_aruco_dictionary_def dictionary_keys_def ARUCO_DICTIONARIES_def)
  have "detect_aruco_markers
          (const_detector \<lparr>det_corners = [tilted_corners], det_ids = Some [7]\<rparr>)
          blank_image identity_affine ''DICT_7X7_1000'' = Inr [m]"
    by (simp add: detect_aruco_markers_def d const_detector_def assemble_markers_def m)
  with m r show ?thesis by simp
qed

lemma detect_aruco_markers_result:
  assumes "get_aruco_dictionary name = Inr d" and "detectMarkers d img = Inr out"
    and "detector_output_ok out"
  obtains assembled where
    "assemble_markers t out = Inr assembled"
    "detect_aruco_markers detectMarkers img t name = Inr (sort_key marker_id assembled)"
    "map marker_id assembled = (case det_ids out of None \<Rightarrow> [] | Some ids \<Rightarrow> ids)"
proof (cases "det_ids out")
  case None
  then have a: "assemble_markers t out = Inr []"
    by (simp add: assemble_markers_def)
  with assms have "detect_aruco_markers detectMarkers img t name = Inr (sort_key marker_id [])"
    by (simp add: detect_aruco_markers_def)
  with a None show ?thesis
    by (intro that [of "[]"]) simp_all
next
  case (Some ids)
  with assms(3) have "0 + length ids \<le> length (det_corners out)"
    and "list_all (\<lambda>c. length c = 4) (det_corners out)"
    by (simp_all add: detector_output_ok_def)
  then obtain ms where ms: "build_markers t (det_corners out) 0 ids = Inr ms"
    using build_markers_ok by blast
  with Some have a: "assemble_markers t out = Inr ms"
    by (simp add: assemble_markers_def)
  with assms have "detect_aruco_markers detectMarkers img t name = Inr (sort_key marker_id ms)"
    by (simp add: detect_aruco_markers_def)
  moreover from ms have "map marker_id ms = ids"
    by (rule build_markers_ids)
  ultimately show ?thesis
    using a Some by (intro that [of ms]) simp_all
qed

lemma make_marker_range:
  assumes "length c = 4" and "make_marker t mid c = Inr m"
  shows "0 \<le> confidence m \<and> confidence m \<le> 1 \<and>
         - 180 \<le> rotation_deg m \<and> rotation_deg m \<le> 180"
proof -
  from assms(1) obtain p0 p1 p2 p3 where c: "c = [p0, p1, p2, p3]"
    by (rule length4E)
  let ?r = "py_degrees (py_atan2 (snd p1 - snd p0) (fst p1 - fst p0))"
  from assms(2) c have m: "confidence m = py_round (spec_confidence p0 p1 p2 p3) 4"
    "rotation_deg m = py_round ?r 2"
    using make_marker_four_corners by blast+
  have "of_int 0 \<le> spec_confidence p0 p1 p2 p3" "spec_confidence p0 p1 p2 p3 \<le> of_int 1"
    using spec_confidence_range [of p0 p1 p2 p3] by simp_all
  then have cr: "of_int 0 \<le> py_round (spec_confidence p0 p1 p2 p3) 4 \<and>
      py_round (spec_confidence p0 p1 p2 p3) 4 \<le> of_int 1"
    by (rule py_round_bounds)
  have "- 180 < ?r \<and> ?r \<le> 180"
    using py_atan2_bounds by (intro py_degrees_bounds) simp_all
  then have "of_int (- 180) \<le> ?r" "?r \<le> of_int 180"
    by simp_all
  then have "of_int (- 180) \<le> py_round ?r 2 \<and> py_round ?r 2 \<le> of_int 180"
    by (rule py_round_bounds)
  with cr m show ?thesis by simp
qed

text \<open>
  C5, amended: for every 4-corner input the marker is assembled, its
  confidence (the value of \<^verbatim>\<open>calculate_confidence\<close>, in [0, 1], rounded to 4
  decimals) lies in [0, 1], and its rotation lies in the closed interval
  [-180, 180]: the angle \<^verbatim>\<open>calculate_rotation\<close> returns lies in (-180, 180], and
  its rounding to 2 decimals in the Marker record can reach -180. The same
  bounds hold for every marker \<^verbatim>\<open>detect_aruco_markers\<close> returns when the
  detector gives four corners for each identifier.
\<close>

theorem marker_confidence_rotation_range:
  "(\<exists>m c r. make_marker t mid [p0, p1, p2, p3] = Inr m \<and>
      calculate_confidence [p0, p1, p2, p3] = Inr c \<and>
      calculate_rotation [p0, p1, p2, p3] = Inr r \<and>
      0 \<le> c \<and> c \<le> 1 \<and> - 180 < r \<and> r \<le> 180 \<and>
      confidence m = py_round c 4 \<and> rotation_deg m = py_round r 2 \<and>
      0 \<le> confidence m \<and> confidence m \<le> 1 \<and>
      - 180 \<le> rotation_deg m \<and> rotation_deg m \<le> 180) \<and>
   (get_aruco_dictionary name = Inr d \<and> detectMarkers d img = Inr out \<and>
    detector_output_ok out \<longrightarrow>
      (\<exists>ms. detect_aruco_markers detectMarkers img t name = Inr ms \<and>
         list_all (\<lambda>m. 0 \<le> confidence m \<and> confidence m \<le> 1 \<and>
                        - 180 \<le> rotation_deg m \<and> rotation_deg m \<le> 180) ms))"
proof (intro conjI impI)
  obtain m where m: "make_marker t mid [p0, p1, p2, p3] = Inr m"
    using make_marker_four_corners_ok by blast
  let ?c = "spec_confidence p0 p1 p2 p3"
  let ?r = "py_degrees (py_atan2 (snd p1 - snd p0) (fst p1 - fst p0))"
  have r: "- 180 < ?r \<and> ?r \<le> 180"
    using py_atan2_bounds by (intro py_degrees_bounds) simp_all
  have "length [p0, p1, p2, p3] = 4" by simp
  then have "0 \<le> confidence m \<and> confidence m \<le> 1 \<and>
      - 180 \<le> rotation_deg m \<and> rotation_deg m \<le> 180"
    using m by (rule make_marker_range)
  moreover have "confidence m = py_round ?c 4" "rotation_deg m = py_round ?r 2"
    using make_marker_four_corners [OF m] by simp_all
  ultimately show "\<exists>m c r. make_marker t mid [p0, p1, p2, p3] = Inr m \<and>
      calculate_confidence [p0, p1, p2, p3] = Inr c \<and>
      calculate_rotation [p0, p1, p2, p3] = Inr r \<and>
      0 \<le> c \<and> c \<le> 1 \<and> - 180 < r \<and> r \<le> 180 \<and>
      confidence m = py_round c 4 \<and> rotation_deg m = py_round r 2 \<and>
      0 \<le> confidence m \<and> confidence m \<le> 1 \<and>
      - 180 \<le> rotation_deg m \<and> rotation_deg m \<le> 180"
    using m r spec_confidence_range [of p0 p1 p2 p3]
      confidence_four_corners [of p0 p1 p2 p3] rotation_four_corners [of p0 p1 p2 p3]
    by blast
next
  assume a: "get_aruco_dictionary name = Inr d \<and> detectMarkers d img = Inr out \<and>
    detector_output_ok out"
  then obtain assembled where as: "assemble_markers t out = Inr assembled"
    and res: "detect_aruco_markers detectMarkers img t name = Inr (sort_key marker_id assembled)"
    using detect_aruco_markers_result [of name d detectMarkers img out t] by blast
  let ?P = "\<lambda>m. 0 \<le> confidence m \<and> confidence m \<le> 1 \<and>
                 - 180 \<le> rotation_deg m \<and> rotation_deg m \<le> 180"
  have "list_all ?P assembled"
  proof (cases "det_ids out")
    case None
    with as show ?thesis by (simp add: assemble_markers_def)
  next
    case (Some ids)
    with a have four: "list_all (\<lambda>c. length c = 4) (det_corners out)"
      by (simp add: detector_output_ok_def)
    from Some as have b: "build_markers t (det_corners out) 0 ids = Inr assembled"
      by (simp add: assemble_markers_def)
    have "?P m" if "c \<in> set (det_corners out)" "make_marker t mid c = Inr m" for mid c m
    proof -
      from four that(1) have "length c = 4" by (simp add: list_all_iff)
      then show ?thesis using that(2) by (rule make_marker_range)
    qed
    then show ?thesis using b by (rule build_markers_all)
  qed
  then have "list_all ?P (sort_key marker_id assembled)"
    by (simp add: list_all_iff)
  with res show "\<exists>ms. detect_aruco_markers detectMarkers img t name = Inr ms \<and> list_all ?P ms"
    by blast
qed

lemma get_default_dictionary: "get_aruco_dictionary ''DICT_7X7_1000'' = Inr CV_DICT_7X7_1000"
  by (simp add: get_aruco_dictionary_def dictionary_keys_def ARUCO_DICTIONARIES_def)

lemma three_detections_ok: "detector_output_ok three_detections"
  by (simp add: detector_output_ok_def three_detections_def)

theorem marker_confidence_rotation_range_witness:
  "get_aruco_dictionary ''DICT_7X7_1000'' = Inr CV_DICT_7X7_1000 \<and>
   const_detector three_detections CV_DICT_7X7_1000 blank_image = Inr three_detections \<and>
   detector_output_ok three_detections \<and>
   (\<exists>ms. detect_aruco_markers (const_detector three_detections) blank_image identity_affine
            ''DICT_7X7_1000'' = Inr ms \<and>
      list_all (\<lambda>m. 0 \<le> confidence m \<and> confidence m \<le> 1 \<and>
                     - 180 \<le> rotation_deg m \<and> rotation_deg m \<le> 180) ms)"
proof -
  have h: "get_aruco_dictionary ''DICT_7X7_1000'' = Inr CV_DICT_7X7_1000 \<and>
    const_detector three_detections CV_DICT_7X7_1000 blank_image = Inr three_detections \<and>
    detector_output_ok three_detections"
    by (simp add: get_default_dictionary three_detections_ok const_detector_def)
  with marker_confidence_rotation_range
    [of identity_affine 0 "(0, 0)" "(0, 0)" "(0, 0)" "(0, 0)" "''DICT_7X7_1000''"
      CV_DICT_7X7_1000 "const_detector three_detections" blank_image three_detections]
  show ?thesis by blast
qed

section \<open>Ordering of the result\<close>

lemma map_insort_key: "map f (insort_key f x xs) = insort (f x) (map f xs)"
  by (induction xs) simp_all

lemma map_sort_key: "map f (sort_key f xs) = sort (map f xs)"
  by (induction xs) (simp_all add: map_insort_key)

text \<open>
  C1: whatever the detector returns (as many corner arrays as identifiers,
  four corners each, in any order), \<^verbatim>\<open>detect_aruco_markers\<close> returns a list,
  namely the markers assembled in detector order, rearranged: it is sorted
  ascending by \<open>marker_id\<close>, it has the same markers with the same
  multiplicities, and for every identifier the markers carrying it appear in
  the same relative order as the detector gave them.
\<close>

theorem detect_aruco_markers_sorted_stable:
  assumes "get_aruco_dictionary name = Inr d"
    and "detectMarkers d img = Inr out"
    and "detector_output_ok out"
  shows "\<exists>ms assembled.
           detect_aruco_markers detectMarkers img t name = Inr ms \<and>
           assemble_markers t out = Inr assembled \<and>
           map marker_id assembled = (case det_ids out of None \<Rightarrow> [] | Some ids \<Rightarrow> ids) \<and>
           sorted (map marker_id ms) \<and>
           map marker_id ms = sort (map marker_id assembled) \<and>
           mset ms = mset assembled \<and>
           (\<forall>k. filter (\<lambda>m. marker_id m = k) ms = filter (\<lambda>m. marker_id m = k) assembled)"
proof -
  from assms obtain assembled where as: "assemble_markers t out = Inr assembled"
    and res: "detect_aruco_markers detectMarkers img t name = Inr (sort_key marker_id assembled)"
    and ids: "map marker_id assembled = (case det_ids out of None \<Rightarrow> [] | Some ids \<Rightarrow> ids)"
    by (rule detect_aruco_markers_result)
  let ?ms = "sort_key marker_id assembled"
  have "sorted (map marker_id ?ms)"
    by (rule sorted_sort_key)
  moreover have "map marker_id ?ms = sort (map marker_id assembled)"
    by (rule map_sort_key)
  moreover have "mset ?ms = mset assembled"
    by (rule mset_sort)
  moreover have "\<forall>k. filter (\<lambda>m. marker_id m = k) ?ms = filter (\<lambda>m. marker_id m = k) assembled"
    by (simp add: sort_key_stable)
  ultimately show ?thesis
    using as res ids by blast
qed

theorem detect_aruco_markers_sorted_stable_witness:
  "\<exists>ms assembled.
     detect_aruco_markers (const_detector three_detections) blank_image identity_affine
       ''DICT_7X7_1000'' = Inr ms \<and>
     assemble_markers identity_affine three_detections = Inr assembled \<and>
     map marker_id assembled = [7, 3, 7] \<and>
     map marker_id ms = [3, 7, 7] \<and>
     sorted (map marker_id ms) \<and>
     mset ms = mset assembled \<and>
     filter (\<lambda>m. marker_id m = 7) ms = filter (\<lambda>m. marker_id m = 7) assembled"
proof -
  have d: "get_aruco_dictionary ''DICT_7X7_1000'' = Inr CV_DICT_7X7_1000"
    by (rule get_default_dictionary)
  have o: "const_detector three_detections CV_DICT_7X7_1000 blank_image = Inr three_detections"
    by (simp add: const_detector_def)
  have i: "det_ids three_detections = Some [7, 3, 7]"
    by (simp add: three_detections_def)
  from detect_aruco_markers_sorted_stable
    [where detectMarkers = "const_detector three_detections" and img = blank_image
       and name = "''DICT_7X7_1000''" and d = CV_DICT_7X7_1000 and out = three_detections
       and t = identity_affine, OF d o three_detections_ok]
  obtain ms assembled where
    r: "detect_aruco_markers (const_detector three_detections) blank_image identity_affine
          ''DICT_7X7_1000'' = Inr ms"
      "assemble_markers identity_affine three_detections = Inr assembled"
      "map marker_id assembled = (case det_ids three_detections of None \<Rightarrow> [] | Some ids \<Rightarrow> ids)"
      "sorted (map marker_id ms)"
      "map marker_id ms = sort (map marker_id assembled)"
      "mset ms = mset assembled"
      "\<forall>k. filter (\<lambda>m. marker_id m = k) ms = filter (\<lambda>m. marker_id m = k) assembled"
    by blast
  from r(3) i have a: "map marker_id assembled = [7, 3, 7]" by simp
  with r(5) have b: "map marker_id ms = [3, 7, 7]" by simp
  from r(7) have "filter (\<lambda>m. marker_id m = 7) ms = filter (\<lambda>m. marker_id m = 7) assembled"
    by (rule spec)
  with r(1,2,4,6) a b show ?thesis
    by (intro exI [of _ ms] exI [of _ assembled] conjI)
qed

section \<open>Dictionary resolution\<close>

lemma sublist_in_context:
  assumes "sublist k ys"
  shows "sublist k (ps @ ys @ ss)"
proof -
  from assms obtain a b where "ys = a @ k @ b"
    unfolding sublist_def by blast
  then have "ps @ ys @ ss = (ps @ a) @ k @ (b @ ss)"
    by simp
  then show ?thesis
    unfolding sublist_def by blast
qed

lemma sublist_py_join: "k \<in> set ks \<Longrightarrow> sublist k (py_join sep ks)"
proof (induction sep ks rule: py_join.induct)
  case (1 sep)
  then show ?case by simp
next
  case (2 sep x)
  then show ?case by simp
next
  case (3 sep x y ys)
  show ?case
  proof (cases "k = x")
    case True
    then show ?thesis by simp
  next
    case False
    with 3 have "sublist k (py_join sep (y # ys))" by simp
    then have "sublist k ((x @ sep) @ py_join sep (y # ys) @ [])"
      by (rule sublist_in_context)
    then show ?thesis by simp
  qed
qed

lemma sublist_py_repr_str_list:
  assumes "k \<in> set ks"
  shows "sublist k (py_repr_str_list ks)"
proof -
  have "sublist k (py_repr_str k)"
    unfolding py_repr_str_def sublist_def by blast
  moreover have "sublist (py_repr_str k) (py_join '', '' (map py_repr_str ks))"
    using assms by (intro sublist_py_join) simp
  ultimately have "sublist k (py_join '', '' (map py_repr_str ks))"
    by (rule sublist_order.order_trans)
  then show ?thesis
    unfolding py_repr_str_list_def by (rule sublist_in_context)
qed

lemma dictionary_keys_17: "length dictionary_keys = 17 \<and> distinct dictionary_keys"
  by (simp add: dictionary_keys_def ARUCO_DICTIONARIES_def)

lemma map_of_dictionary_key:
  "name \<in> set dictionary_keys \<Longrightarrow> \<exists>d. map_of ARUCO_DICTIONARIES name = Some d"
  unfolding dictionary_keys_def
  by (metis map_of_eq_None_iff not_None_eq set_map)

text \<open>
  C8: for every name outside the 17 keys of \<^verbatim>\<open>ARUCO_DICTIONARIES\<close>,
  \<^verbatim>\<open>get_aruco_dictionary\<close> fails with a ValueError (the UnknownDictionary error)
  whose message contains the offending name and each of the 17 valid names;
  for every name among the keys it succeeds.
\<close>

theorem get_aruco_dictionary_unknown:
  "length dictionary_keys = 17 \<and> distinct dictionary_keys \<and>
   (name \<notin> set dictionary_keys \<longrightarrow>
      (\<exists>msg. get_aruco_dictionary name = Inl (ValueError msg) \<and>
         msg = ''Unknown ArUco dictionary: '' @ name @ ''. Available: '' @
               py_repr_str_list dictionary_keys \<and>
         sublist name msg \<and>
         (\<forall>k \<in> set dictionary_keys. sublist k msg))) \<and>
   (name \<in> set dictionary_keys \<longrightarrow> (\<exists>d. get_aruco_dictionary name = Inr d))"
proof (intro conjI impI)
  show "length dictionary_keys = 17" and "distinct dictionary_keys"
    using dictionary_keys_17 by simp_all
next
  assume n: "name \<notin> set dictionary_keys"
  let ?msg = "''Unknown ArUco dictionary: '' @ name @ ''. Available: '' @
              py_repr_str_list dictionary_keys"
  from n have g: "get_aruco_dictionary name = Inl (ValueError ?msg)"
    by (simp add: get_aruco_dictionary_def)
  have s: "sublist name ?msg"
    unfolding sublist_def by blast
  have "sublist k ?msg" if "k \<in> set dictionary_keys" for k
  proof -
    from that have "sublist k (py_repr_str_list dictionary_keys)"
      by (rule sublist_py_repr_str_list)
    then have "sublist k ((''Unknown ArUco dictionary: '' @ name @ ''. Available: '') @
                          py_repr_str_list dictionary_keys @ [])"
      by (rule sublist_in_context)
    then show ?thesis by simp
  qed
  with g s show "\<exists>msg. get_aruco_dictionary name = Inl (ValueError msg) \<and>
         msg = ''Unknown ArUco dictionary: '' @ name @ ''. Available: '' @
               py_repr_str_list dictionary_keys \<and>
         sublist name msg \<and> (\<forall>k \<in> set dictionary_keys. sublist k msg)"
    by blast
next
  assume n: "name \<in> set dictionary_keys"
  then obtain d where "map_of ARUCO_DICTIONARIES name = Some d"
    using map_of_dictionary_key by blast
  with n show "\<exists>d. get_aruco_dictionary name = Inr d"
    by (simp add: get_aruco_dictionary_def)
qed

lemma py_repr_dictionary_keys:
  "py_repr_str_list dictionary_keys =
     ''['DICT_4X4_50', 'DICT_4X4_100', 'DICT_4X4_250', 'DICT_4X4_1000', '' @
     '''DICT_5X5_50', 'DICT_5X5_100', 'DICT_5X5_250', 'DICT_5X5_1000', '' @
     '''DICT_6X6_50', 'DICT_6X6_100', 'DICT_6X6_250', 'DICT_6X6_1000', '' @
     '''DICT_7X7_50', 'DICT_7X7_100', 'DICT_7X7_250', 'DICT_7X7_1000', '' @
     '''DICT_ARUCO_ORIGINAL']''"
  by (simp add: py_repr_str_list_def dictionary_keys_def ARUCO_DICTIONARIES_def py_repr_str_def)

theorem get_aruco_dictionary_unknown_witness:
  "''DICT_8X8_50'' \<notin> set dictionary_keys \<and>
   get_aruco_dictionary ''DICT_8X8_50'' =
     Inl (ValueError (''Unknown ArUco dictionary: DICT_8X8_50. Available: '' @
       ''['DICT_4X4_50', 'DICT_4X4_100', 'DICT_4X4_250', 'DICT_4X4_1000', '' @
       '''DICT_5X5_50', 'DICT_5X5_100', 'DICT_5X5_250', 'DICT_5X5_1000', '' @
       '''DICT_6X6_50', 'DICT_6X6_100', 'DICT_6X6_250', 'DICT_6X6_1000', '' @
       '''DICT_7X7_50', 'DICT_7X7_100', 'DICT_7X7_250', 'DICT_7X7_1000', '' @
       '''DICT_ARUCO_ORIGINAL']'')) \<and>
   ''DICT_4X4_50'' \<in> set dictionary_keys \<and>
   (\<exists>d. get_aruco_dictionary ''DICT_4X4_50'' = Inr d)"
proof -
  have n: "''DICT_8X8_50'' \<notin> set dictionary_keys"
    by (simp add: dictionary_keys_def ARUCO_DICTIONARIES_def)
  have k: "''DICT_4X4_50'' \<in> set dictionary_keys"
    by (simp add: dictionary_keys_def ARUCO_DICTIONARIES_def)
  from n get_aruco_dictionary_unknown [of "''DICT_8X8_50''"]
  have "get_aruco_dictionary ''DICT_8X8_50'' =
      Inl (ValueError (''Unknown ArUco dictionary: '' @ ''DICT_8X8_50'' @ ''. Available: '' @
        py_repr_str_list dictionary_keys))"
    by blast
  then have m: "get_aruco_dictionary ''DICT_8X8_50'' =
     Inl (ValueError (''Unknown ArUco dictionary: DICT_8X8_50. Available: '' @
       ''['DICT_4X4_50', 'DICT_4X4_100', 'DICT_4X4_250', 'DICT_4X4_1000', '' @
       '''DICT_5X5_50', 'DICT_5X5_100', 'DICT_5X5_250', 'DICT_5X5_1000', '' @
       '''DICT_6X6_50', 'DICT_6X6_100', 'DICT_6X6_250', 'DICT_6X6_1000', '' @
       '''DICT_7X7_50', 'DICT_7X7_100', 'DICT_7X7_250', 'DICT_7X7_1000', '' @
       '''DICT_ARUCO_ORIGINAL']''))"
    by (simp add: py_repr_dictionary_keys)
  from k get_aruco_dictionary_unknown [of "''DICT_4X4_50''"]
  have "\<exists>d. get_aruco_dictionary ''DICT_4X4_50'' = Inr d"
    by blast
  with n k m show ?thesis by blast
qed

section \<open>Properties of the raster loader\<close>

lemma read_bands_rgb:
  "3 \<le> ds_count src \<Longrightarrow>
     read_bands src =
       Inr \<lparr>img_dtype = ds_dtype src,
            img_data = np_transpose_1_2_0 (ds_height src) (ds_width src) (take 3 (ds_bands src))\<rparr>"
  by (simp add: read_bands_def Let_def)

lemma read_bands_gray:
  "ds_count src = 1 \<Longrightarrow>
     read_bands src = Inr \<lparr>img_dtype = ds_dtype src, img_data = np_stack3 (ds_bands src ! 0)\<rparr>"
  by (simp add: read_bands_def Let_def)

lemma read_bands_other:
  "ds_count src \<noteq> 1 \<Longrightarrow> ds_count src < 3 \<Longrightarrow>
     read_bands src = Inl (ValueError (''Unexpected band count: '' @ py_str_nat (ds_count src)))"
  by (simp add: read_bands_def Let_def)

lemma transpose_shape:
  "length bands = 3 \<Longrightarrow> hwc_shape height width (np_transpose_1_2_0 height width bands)"
  by (simp add: hwc_shape_def np_transpose_1_2_0_def list_all_iff)

lemma stack3_shape:
  "length band = height \<Longrightarrow> list_all (\<lambda>row. length row = width) band \<Longrightarrow>
     hwc_shape height width (np_stack3 band)"
  by (simp add: hwc_shape_def np_stack3_def list_all_iff)

lemma map_pixels_shape:
  "hwc_shape height width data \<Longrightarrow> hwc_shape height width (map_pixels g data)"
  by (simp add: hwc_shape_def map_pixels_def list_all_iff)

lemma map_pixels_id: "map_pixels (\<lambda>v. v) data = data"
  by (simp add: map_pixels_def)

lemma transpose_nth:
  "h < height \<Longrightarrow> w < width \<Longrightarrow>
     np_transpose_1_2_0 height width bands ! h ! w = map (\<lambda>band. band ! h ! w) bands"
  by (simp add: np_transpose_1_2_0_def)

lemma stack3_nth:
  "h < length band \<Longrightarrow> w < length (band ! h) \<Longrightarrow>
     np_stack3 band ! h ! w = [band ! h ! w, band ! h ! w, band ! h ! w]"
  by (simp add: np_stack3_def)

lemma map_pixels_nth:
  "hwc_shape height width data \<Longrightarrow> h < height \<Longrightarrow> w < width \<Longrightarrow>
     map_pixels g data ! h ! w = map g (data ! h ! w)"
  by (simp add: map_pixels_def hwc_shape_def list_all_length)

lemma np_max_ok:
  assumes "hwc_shape height width data" "0 < height" "0 < width"
  shows "\<exists>m. np_max data = Inr m"
proof -
  from assms obtain row rows where d: "data = row # rows"
    by (cases data) (auto simp: hwc_shape_def)
  with assms have "length row = width" and px: "list_all (\<lambda>px. length px = 3) row"
    by (simp_all add: hwc_shape_def)
  with assms(3) obtain p ps where r: "row = p # ps"
    by (cases row) auto
  with px have "length p = 3" by simp
  then have "p \<noteq> []" by auto
  with d r have "concat (concat data) \<noteq> []" by simp
  then show ?thesis by (simp add: np_max_def Let_def)
qed

lemma ensure_uint8_ok:
  assumes "np_max (img_data img) = Inr m"
  shows "\<exists>g img'. ensure_uint8 img = Inr img' \<and> img_data img' = map_pixels g (img_data img)"
proof (cases "img_dtype img = UInt8")
  case True
  then have "ensure_uint8 img = Inr img" by (simp add: ensure_uint8_def)
  moreover have "img_data img = map_pixels (\<lambda>v. v) (img_data img)"
    by (simp add: map_pixels_id)
  ultimately show ?thesis by blast
next
  case False
  show ?thesis
  proof (cases "255 < m")
    case True
    with False assms have "ensure_uint8 img =
        Inr \<lparr>img_dtype = UInt8,
             img_data = map_pixels (\<lambda>v. astype_uint8 (v / m * 255)) (img_data img)\<rparr>"
      by (simp add: ensure_uint8_def)
    then show ?thesis by (metis image.select_convs(2))
  next
    case nm: False
    with False assms have "ensure_uint8 img =
        Inr \<lparr>img_dtype = UInt8, img_data = map_pixels astype_uint8 (img_data img)\<rparr>"
      by (simp add: ensure_uint8_def)
    then show ?thesis by (metis image.select_convs(2))
  qed
qed

lemma dataset_ok_band:
  assumes "dataset_ok src" "c < ds_count src"
  shows "length (ds_bands src ! c) = ds_height src"
    and "list_all (\<lambda>row. length row = ds_width src) (ds_bands src ! c)"
  using assms by (simp_all add: dataset_ok_def ds_count_def list_all_length)

lemma length3_nth: "length xs = 3 \<Longrightarrow> xs = [xs ! 0, xs ! 1, xs ! 2]"
proof -
  assume "length xs = 3"
  then obtain a xs1 where x: "xs = a # xs1" and "length xs1 = 2"
    by (cases xs) auto
  then obtain b xs2 where x1: "xs1 = b # xs2" and "length xs2 = 1"
    by (cases xs1) auto
  then obtain c where "xs2 = [c]"
    by (cases xs2) auto
  with x x1 show ?thesis by simp
qed

lemma load_of_open:
  "rasterio_open w file_path = Inr src \<Longrightarrow>
     load_geotiff_for_detection w file_path =
       (case read_bands src of
          Inl e \<Rightarrow> Inl e
        | Inr img0 \<Rightarrow>
            (case ensure_uint8 img0 of
               Inl e \<Rightarrow> Inl e
             | Inr img \<Rightarrow> Inr (img, ds_transform src, ds_crs src)))"
  by (simp add: load_geotiff_for_detection_def)

lemma load_success:
  assumes o: "rasterio_open w file_path = Inr src" and ok: "dataset_ok src"
    and r: "read_bands src = Inr img0"
    and s: "hwc_shape (ds_height src) (ds_width src) (img_data img0)"
  shows "\<exists>g img. load_geotiff_for_detection w file_path =
           Inr (img, ds_transform src, ds_crs src) \<and>
           img_data img = map_pixels g (img_data img0)"
proof -
  from ok have "0 < ds_height src" "0 < ds_width src"
    by (simp_all add: dataset_ok_def)
  with s obtain m where "np_max (img_data img0) = Inr m"
    using np_max_ok by blast
  then obtain g img where e: "ensure_uint8 img0 = Inr img"
    and g: "img_data img = map_pixels g (img_data img0)"
    using ensure_uint8_ok by blast
  from o r e have "load_geotiff_for_detection w file_path =
      Inr (img, ds_transform src, ds_crs src)"
    by (simp add: load_of_open)
  with g show ?thesis by blast
qed

lemma map_by_index: "map f xs = map (\<lambda>i. f (xs ! i)) [0..<length xs]"
proof -
  have "map f xs = map f (map (\<lambda>i. xs ! i) [0..<length xs])"
    by (simp only: map_nth)
  then show ?thesis by (simp add: comp_def)
qed

lemma upt_0_1: "[0..<1] = [0]"
  by simp

lemma upt_0_2: "[0..<2] = [0, 1]"
  by (simp add: upt_rec)

lemma upt_0_3: "[0..<3] = [0, 1, 2]"
  by (simp add: upt_rec)

lemma transpose_explicit:
  assumes "3 \<le> length bands"
  shows "np_transpose_1_2_0 height width (take 3 bands) =
           map (\<lambda>h. map (\<lambda>x. map (\<lambda>c. bands ! c ! h ! x) [0, 1, 2]) [0..<width]) [0..<height]"
proof -
  from assms have len: "length (take 3 bands) = 3" by simp
  have "map (\<lambda>band. band ! h ! x) (take 3 bands) = map (\<lambda>c. bands ! c ! h ! x) [0, 1, 2]" for h x
  proof -
    have "map (\<lambda>band. band ! h ! x) (take 3 bands) =
        map (\<lambda>i. take 3 bands ! i ! h ! x) [0..<length (take 3 bands)]"
      by (rule map_by_index)
    also have "\<dots> = map (\<lambda>i. take 3 bands ! i ! h ! x) [0, 1, 2]"
      by (simp only: len upt_0_3)
    also have "\<dots> = map (\<lambda>c. bands ! c ! h ! x) [0, 1, 2]"
      by simp
    finally show ?thesis .
  qed
  then show ?thesis
    by (simp only: np_transpose_1_2_0_def)
qed

lemma stack3_explicit:
  assumes "length band = height" and "list_all (\<lambda>row. length row = width) band"
  shows "np_stack3 band =
           map (\<lambda>h. map (\<lambda>x. map (\<lambda>c. band ! h ! x) [0, 1, 2 :: nat]) [0..<width]) [0..<height]"
proof -
  have row: "map (\<lambda>v. [v, v, v]) (band ! h) = map (\<lambda>x. map (\<lambda>c. band ! h ! x) [0, 1, 2 :: nat]) [0..<width]"
    if "h < height" for h
  proof -
    from that assms have w: "length (band ! h) = width"
      by (simp add: list_all_length)
    have "map (\<lambda>v. [v, v, v]) (band ! h) =
        map (\<lambda>x. [band ! h ! x, band ! h ! x, band ! h ! x]) [0..<length (band ! h)]"
      by (rule map_by_index)
    then show ?thesis by (simp add: w)
  qed
  have "np_stack3 band = map (\<lambda>h. map (\<lambda>v. [v, v, v]) (band ! h)) [0..<length band]"
    unfolding np_stack3_def by (rule map_by_index)
  also have "\<dots> = map (\<lambda>h. map (\<lambda>x. map (\<lambda>c. band ! h ! x) [0, 1, 2 :: nat]) [0..<width]) [0..<height]"
    using row assms(1) by simp
  finally show ?thesis .
qed

lemma explicit_shape:
  "hwc_shape height width
     (map (\<lambda>h. map (\<lambda>x. map (f h x) [0, 1, 2 :: nat]) [0..<width]) [0..<height])"
  by (simp add: hwc_shape_def list_all_iff)

lemma np_max_value:
  "np_max data = Inr m \<Longrightarrow> m = Max (set (concat (concat data)))"
  by (auto simp: np_max_def Let_def split: if_splits)

lemma ensure_uint8_explicit:
  assumes "np_max data = Inr m"
  shows "ensure_uint8 \<lparr>img_dtype = dt, img_data = data\<rparr> =
           Inr \<lparr>img_dtype = UInt8,
                img_data = map (map (map (\<lambda>v. if dt = UInt8 then v
                                               else if 255 < m then astype_uint8 (v / m * 255)
                                               else astype_uint8 v))) data\<rparr>"
proof (cases "dt = UInt8")
  case True
  then show ?thesis by (simp add: ensure_uint8_def)
next
  case False
  with assms show ?thesis
    by (cases "255 < m") (simp_all add: ensure_uint8_def map_pixels_def)
qed

lemma load_explicit:
  assumes o: "rasterio_open w file_path = Inr src" and ok: "dataset_ok src"
    and r: "read_bands src =
      Inr \<lparr>img_dtype = ds_dtype src,
           img_data = map (\<lambda>h. map (\<lambda>x. map (f h x) [0, 1, 2 :: nat]) [0..<ds_width src])
                        [0..<ds_height src]\<rparr>"
  shows "load_geotiff_for_detection w file_path =
     Inr (\<lparr>img_dtype = UInt8,
           img_data =
             map (map (map (\<lambda>v.
               if ds_dtype src = UInt8 then v
               else if 255 < Max (set (concat (concat
                   (map (\<lambda>h. map (\<lambda>x. map (f h x) [0, 1, 2 :: nat]) [0..<ds_width src])
                      [0..<ds_height src]))))
               then astype_uint8 (v / Max (set (concat (concat
                   (map (\<lambda>h. map (\<lambda>x. map (f h x) [0, 1, 2 :: nat]) [0..<ds_width src])
                      [0..<ds_height src])))) * 255)
               else astype_uint8 v)))
               (map (\<lambda>h. map (\<lambda>x. map (f h x) [0, 1, 2 :: nat]) [0..<ds_width src])
                  [0..<ds_height src])\<rparr>,
          ds_transform src, ds_crs src)"
proof -
  let ?raw = "map (\<lambda>h. map (\<lambda>x. map (f h x) [0, 1, 2 :: nat]) [0..<ds_width src])
                [0..<ds_height src]"
  from ok have "0 < ds_height src" "0 < ds_width src"
    by (simp_all add: dataset_ok_def)
  with explicit_shape [of "ds_height src" "ds_width src" f]
  obtain m where m: "np_max ?raw = Inr m"
    using np_max_ok by blast
  then have mx: "m = Max (set (concat (concat ?raw)))"
    by (rule np_max_value)
  note e = ensure_uint8_explicit [OF m, of "ds_dtype src"]
  show ?thesis
    unfolding load_of_open [OF o] r sum.case e mx [symmetric] ..
qed

text \<open>
  C7: for a raster that opens, of positive height and width, the loader
  succeeds exactly when the band count is 1 or at least 3, and fails with the
  ValueError "Unexpected band count" (the UnsupportedBandCount error) for any
  other count. With at least 3 bands the loaded image is the (H, W, 3) image
  whose pixel at row \<open>h\<close>, column \<open>x\<close> holds the values of bands 1, 2 and 3 at
  that place, in this order; with 1 band it holds three copies of the value
  of the single band. In both cases each value has gone through the bit-depth
  normalization \<open>g\<close> of the loader (the identity for 8-bit rasters), where \<open>m\<close>
  is the largest value of that image. Every loaded image has the raster's
  height and width and exactly 3 channels in every pixel.
\<close>

theorem load_geotiff_band_count:
  assumes "rasterio_open w file_path = Inr src" and "dataset_ok src"
  shows "((\<exists>r. load_geotiff_for_detection w file_path = Inr r) \<longleftrightarrow>
            (ds_count src = 1 \<or> 3 \<le> ds_count src)) \<and>
         (ds_count src \<noteq> 1 \<and> ds_count src < 3 \<longrightarrow>
            load_geotiff_for_detection w file_path =
              Inl (ValueError (''Unexpected band count: '' @ py_str_nat (ds_count src)))) \<and>
         (3 \<le> ds_count src \<longrightarrow>
            (let raw = map (\<lambda>h. map (\<lambda>x. map (\<lambda>c. ds_bands src ! c ! h ! x) [0, 1, 2])
                                  [0..<ds_width src]) [0..<ds_height src];
                 m = Max (set (concat (concat raw)));
                 g = (\<lambda>v. if ds_dtype src = UInt8 then v
                          else if 255 < m then astype_uint8 (v / m * 255)
                          else astype_uint8 v)
             in load_geotiff_for_detection w file_path =
                  Inr (\<lparr>img_dtype = UInt8, img_data = map (map (map g)) raw\<rparr>,
                       ds_transform src, ds_crs src))) \<and>
         (ds_count src = 1 \<longrightarrow>
            (let raw = map (\<lambda>h. map (\<lambda>x. map (\<lambda>c. ds_bands src ! 0 ! h ! x) [0, 1, 2 :: nat])
                                  [0..<ds_width src]) [0..<ds_height src];
                 m = Max (set (concat (concat raw)));
                 g = (\<lambda>v. if ds_dtype src = UInt8 then v
                          else if 255 < m then astype_uint8 (v / m * 255)
                          else astype_uint8 v)
             in load_geotiff_for_detection w file_path =
                  Inr (\<lparr>img_dtype = UInt8, img_data = map (map (map g)) raw\<rparr>,
                       ds_transform src, ds_crs src))) \<and>
         (\<forall>img t crs. load_geotiff_for_detection w file_path = Inr (img, t, crs) \<longrightarrow>
            hwc_shape (ds_height src) (ds_width src) (img_data img))"
proof -
  let ?H = "ds_height src" and ?W = "ds_width src"
  note o = assms(1) and ok = assms(2)
  have other: "load_geotiff_for_detection w file_path =
      Inl (ValueError (''Unexpected band count: '' @ py_str_nat (ds_count src)))"
    if "ds_count src \<noteq> 1" "ds_count src < 3"
    using that o by (simp add: load_of_open read_bands_other)
  have rgb: "let raw = map (\<lambda>h. map (\<lambda>x. map (\<lambda>c. ds_bands src ! c ! h ! x) [0, 1, 2])
                                  [0..<?W]) [0..<?H];
                 m = Max (set (concat (concat raw)));
                 g = (\<lambda>v. if ds_dtype src = UInt8 then v
                          else if 255 < m then astype_uint8 (v / m * 255)
                          else astype_uint8 v)
             in load_geotiff_for_detection w file_path =
                  Inr (\<lparr>img_dtype = UInt8, img_data = map (map (map g)) raw\<rparr>,
                       ds_transform src, ds_crs src)"
    if c: "3 \<le> ds_count src"
  proof -
    from c have "3 \<le> length (ds_bands src)" by (simp add: ds_count_def)
    then have "read_bands src =
        Inr \<lparr>img_dtype = ds_dtype src,
             img_data = map (\<lambda>h. map (\<lambda>x. map (\<lambda>c. ds_bands src ! c ! h ! x) [0, 1, 2])
                                   [0..<?W]) [0..<?H]\<rparr>"
      unfolding read_bands_rgb [OF c] by (simp only: transpose_explicit)
    then show ?thesis
      unfolding Let_def by (rule load_explicit [OF o ok])
  qed
  have gray: "let raw = map (\<lambda>h. map (\<lambda>x. map (\<lambda>c. ds_bands src ! 0 ! h ! x) [0, 1, 2 :: nat])
                                  [0..<?W]) [0..<?H];
                 m = Max (set (concat (concat raw)));
                 g = (\<lambda>v. if ds_dtype src = UInt8 then v
                          else if 255 < m then astype_uint8 (v / m * 255)
                          else astype_uint8 v)
             in load_geotiff_for_detection w file_path =
                  Inr (\<lparr>img_dtype = UInt8, img_data = map (map (map g)) raw\<rparr>,
                       ds_transform src, ds_crs src)"
    if c: "ds_count src = 1"
  proof -
    from c ok have "length (ds_bands src ! 0) = ?H"
      and "list_all (\<lambda>row. length row = ?W) (ds_bands src ! 0)"
      by (simp_all add: dataset_ok_band)
    then have "np_stack3 (ds_bands src ! 0) =
        map (\<lambda>h. map (\<lambda>x. map (\<lambda>c. ds_bands src ! 0 ! h ! x) [0, 1, 2 :: nat]) [0..<?W]) [0..<?H]"
      by (rule stack3_explicit)
    then have "read_bands src =
        Inr \<lparr>img_dtype = ds_dtype src,
             img_data = map (\<lambda>h. map (\<lambda>x. map (\<lambda>c. ds_bands src ! 0 ! h ! x) [0, 1, 2 :: nat])
                                   [0..<?W]) [0..<?H]\<rparr>"
      unfolding read_bands_gray [OF c] by (simp only:)
    then show ?thesis
      unfolding Let_def by (rule load_explicit [OF o ok])
  qed
  have ex: "\<exists>r. load_geotiff_for_detection w file_path = Inr r"
    if "ds_count src = 1 \<or> 3 \<le> ds_count src"
    using that
  proof
    assume "ds_count src = 1"
    from gray [OF this] show ?thesis unfolding Let_def by (rule exI)
  next
    assume "3 \<le> ds_count src"
    from rgb [OF this] show ?thesis unfolding Let_def by (rule exI)
  qed
  have iff: "(\<exists>r. load_geotiff_for_detection w file_path = Inr r) \<longleftrightarrow>
      (ds_count src = 1 \<or> 3 \<le> ds_count src)"
  proof
    assume "\<exists>r. load_geotiff_for_detection w file_path = Inr r"
    then show "ds_count src = 1 \<or> 3 \<le> ds_count src"
      using other by (cases "ds_count src = 1 \<or> 3 \<le> ds_count src") auto
  next
    assume "ds_count src = 1 \<or> 3 \<le> ds_count src"
    then show "\<exists>r. load_geotiff_for_detection w file_path = Inr r"
      by (rule ex)
  qed
  have shape: "hwc_shape ?H ?W (img_data img)"
    if l: "load_geotiff_for_detection w file_path = Inr (img, t, crs)" for img t crs
  proof -
    have sh: "hwc_shape ?H ?W (img_data img)"
      if e: "load_geotiff_for_detection w file_path =
          Inr (\<lparr>img_dtype = UInt8, img_data = map (map (map g)) raw\<rparr>, a, b)"
        and r: "hwc_shape ?H ?W raw"
      for g :: "real \<Rightarrow> real" and raw a b
    proof -
      from l e have "Inr (img, t, crs) =
          (Inr (\<lparr>img_dtype = UInt8, img_data = map (map (map g)) raw\<rparr>, a, b)
             :: error + image \<times> affine \<times> string)"
        by (rule trans [OF sym])
      then have "img = \<lparr>img_dtype = UInt8, img_data = map (map (map g)) raw\<rparr>"
        by (simp only: sum.inject prod.inject)
      then have "img_data img = map_pixels g raw"
        by (simp only: image.select_convs map_pixels_def)
      with map_pixels_shape [OF r, of g] show ?thesis
        by (simp only:)
    qed
    from l iff have "ds_count src = 1 \<or> 3 \<le> ds_count src" by blast
    then show ?thesis
    proof
      assume "ds_count src = 1"
      from gray [OF this, unfolded Let_def] show ?thesis
        by (rule sh) (rule explicit_shape)
    next
      assume "3 \<le> ds_count src"
      from rgb [OF this, unfolded Let_def] show ?thesis
        by (rule sh) (rule explicit_shape)
    qed
  qed
  show ?thesis
  proof (intro conjI)
    show "(\<exists>r. load_geotiff_for_detection w file_path = Inr r) \<longleftrightarrow>
        (ds_count src = 1 \<or> 3 \<le> ds_count src)"
      by (rule iff)
  next
    show "ds_count src \<noteq> 1 \<and> ds_count src < 3 \<longrightarrow>
      load_geotiff_for_detection w file_path =
        Inl (ValueError (''Unexpected band count: '' @ py_str_nat (ds_count src)))"
      using other by blast
  next
    show "3 \<le> ds_count src \<longrightarrow>
            (let raw = map (\<lambda>h. map (\<lambda>x. map (\<lambda>c. ds_bands src ! c ! h ! x) [0, 1, 2])
                                  [0..<?W]) [0..<?H];
                 m = Max (set (concat (concat raw)));
                 g = (\<lambda>v. if ds_dtype src = UInt8 then v
                          else if 255 < m then astype_uint8 (v / m * 255)
                          else astype_uint8 v)
             in load_geotiff_for_detection w file_path =
                  Inr (\<lparr>img_dtype = UInt8, img_data = map (map (map g)) raw\<rparr>,
                       ds_transform src, ds_crs src))"
      by (intro impI) (rule rgb)
  next
    show "ds_count src = 1 \<longrightarrow>
            (let raw = map (\<lambda>h. map (\<lambda>x. map (\<lambda>c. ds_bands src ! 0 ! h ! x) [0, 1, 2 :: nat])
                                  [0..<?W]) [0..<?H];
                 m = Max (set (concat (concat raw)));
                 g = (\<lambda>v. if ds_dtype src = UInt8 then v
                          else if 255 < m then astype_uint8 (v / m * 255)
                          else astype_uint8 v)
             in load_geotiff_for_detection w file_path =
                  Inr (\<lparr>img_dtype = UInt8, img_data = map (map (map g)) raw\<rparr>,
                       ds_transform src, ds_crs src))"
      by (intro impI) (rule gray)
  next
    show "\<forall>img t crs. load_geotiff_for_detection w file_path = Inr (img, t, crs) \<longrightarrow>
      hwc_shape ?H ?W (img_data img)"
      by (intro allI impI) (rule shape)
  qed
qed

lemma open_two_band: "rasterio_open raster_world ''/data/two.tif'' = Inr two_band"
  by (simp add: rasterio_open_def raster_world_def)

lemma open_gray16: "rasterio_open raster_world ''/data/gray16.tif'' = Inr gray16"
  by (simp add: rasterio_open_def raster_world_def)

lemma open_rgb16: "rasterio_open raster_world ''/data/rgb16.tif'' = Inr rgb16"
  by (simp add: rasterio_open_def raster_world_def)

lemma demo_datasets_ok: "dataset_ok two_band" "dataset_ok gray16" "dataset_ok rgb16"
  by (simp_all add: dataset_ok_def two_band_def gray16_def rgb16_def)

lemma demo_counts: "ds_count two_band = 2" "ds_count gray16 = 1" "ds_count rgb16 = 3"
  by (simp_all add: ds_count_def two_band_def gray16_def rgb16_def)

lemma py_str_nat_2: "py_str_nat 2 = ''2''"
  by (simp add: py_str_nat.simps [of 2] digit_char_def)

lemma band_world_open:
  "rasterio_open band_world ''/data/rgba8.tif'' = Inr rgba8"
  "rasterio_open band_world ''/data/gray8.tif'' = Inr gray8"
  "rasterio_open band_world ''/data/two.tif'' = Inr two_band"
  by (simp_all add: rasterio_open_def band_world_def)

lemma band_datasets_ok: "dataset_ok rgba8" "dataset_ok gray8"
  by (simp_all add: dataset_ok_def rgba8_def gray8_def)

lemma band_counts: "ds_count rgba8 = 4" "ds_count gray8 = 1"
  by (simp_all add: ds_count_def rgba8_def gray8_def)

theorem load_geotiff_band_count_witness:
  "rasterio_open band_world ''/data/two.tif'' = Inr two_band \<and> dataset_ok two_band \<and>
   ds_count two_band = 2 \<and>
   load_geotiff_for_detection band_world ''/data/two.tif'' =
     Inl (ValueError ''Unexpected band count: 2'') \<and>
   rasterio_open band_world ''/data/rgba8.tif'' = Inr rgba8 \<and> dataset_ok rgba8 \<and>
   ds_count rgba8 = 4 \<and>
   load_geotiff_for_detection band_world ''/data/rgba8.tif'' =
     Inr (\<lparr>img_dtype = UInt8, img_data = [[[1, 3, 5], [2, 4, 6]]]\<rparr>,
          identity_affine, ''EPSG:4326'') \<and>
   rasterio_open band_world ''/data/gray8.tif'' = Inr gray8 \<and> dataset_ok gray8 \<and>
   ds_count gray8 = 1 \<and>
   load_geotiff_for_detection band_world ''/data/gray8.tif'' =
     Inr (\<lparr>img_dtype = UInt8, img_data = [[[9, 9, 9], [8, 8, 8]]]\<rparr>,
          identity_affine, ''EPSG:4326'')"
proof -
  note t2 = load_geotiff_band_count [OF band_world_open(3) demo_datasets_ok(1)]
  note t4 = load_geotiff_band_count [OF band_world_open(1) band_datasets_ok(1)]
  note t1 = load_geotiff_band_count [OF band_world_open(2) band_datasets_ok(2)]
  have "load_geotiff_for_detection band_world ''/data/two.tif'' =
      Inl (ValueError (''Unexpected band count: '' @ py_str_nat (ds_count two_band)))"
    by (rule t2 [THEN conjunct2, THEN conjunct1, THEN mp]) (simp add: demo_counts)
  then have two: "load_geotiff_for_detection band_world ''/data/two.tif'' =
      Inl (ValueError ''Unexpected band count: 2'')"
    by (simp add: demo_counts py_str_nat_2)
  have "3 \<le> ds_count rgba8"
    by (simp add: band_counts)
  from t4 [THEN conjunct2, THEN conjunct2, THEN conjunct1, THEN mp, OF this]
  have rgba: "load_geotiff_for_detection band_world ''/data/rgba8.tif'' =
      Inr (\<lparr>img_dtype = UInt8, img_data = [[[1, 3, 5], [2, 4, 6]]]\<rparr>,
           identity_affine, ''EPSG:4326'')"
    by (simp add: Let_def rgba8_def upt_0_1 upt_0_2)
  from t1 [THEN conjunct2, THEN conjunct2, THEN conjunct2, THEN conjunct1, THEN mp,
      OF band_counts(2)]
  have gray: "load_geotiff_for_detection band_world ''/data/gray8.tif'' =
      Inr (\<lparr>img_dtype = UInt8, img_data = [[[9, 9, 9], [8, 8, 8]]]\<rparr>,
           identity_affine, ''EPSG:4326'')"
    by (simp add: Let_def gray8_def upt_0_1 upt_0_2)
  from two rgba gray band_world_open band_datasets_ok band_counts demo_datasets_ok(1)
    demo_counts(1)
  show ?thesis
    by (intro conjI)
qed

lemma flat_gray16:
  "concat (concat (np_stack3 (ds_bands gray16 ! 0))) = [100, 100, 100, 50, 50, 50]"
  by (simp add: np_stack3_def gray16_def)

lemma astype_uint8_of_int: "0 \<le> n \<Longrightarrow> n \<le> 255 \<Longrightarrow> astype_uint8 (of_int n) = of_int n"
  by (simp add: astype_uint8_def py_int_of_int)

lemma astype_uint8_100: "astype_uint8 100 = 100"
  using astype_uint8_of_int [of 100] by simp

lemma astype_uint8_50: "astype_uint8 50 = 50"
  using astype_uint8_of_int [of 50] by simp

lemma load_gray16:
  assumes "rasterio_open w file_path = Inr gray16"
  shows "load_geotiff_for_detection w file_path =
     Inr (\<lparr>img_dtype = UInt8, img_data = [[[100, 100, 100], [50, 50, 50]]]\<rparr>,
          identity_affine, ''EPSG:4326'')"
proof -
  have r: "read_bands gray16 =
      Inr \<lparr>img_dtype = UInt16, img_data = np_stack3 (ds_bands gray16 ! 0)\<rparr>"
    using read_bands_gray [OF demo_counts(2)] by (simp add: gray16_def)
  have m: "np_max (np_stack3 (ds_bands gray16 ! 0)) = Inr 100"
    by (simp add: np_max_def flat_gray16)
  have d: "map_pixels astype_uint8 (np_stack3 (ds_bands gray16 ! 0)) =
      [[[100, 100, 100], [50, 50, 50]]]"
    by (simp add: map_pixels_def np_stack3_def gray16_def astype_uint8_100 astype_uint8_50)
  have "ensure_uint8 \<lparr>img_dtype = UInt16, img_data = np_stack3 (ds_bands gray16 ! 0)\<rparr> =
      Inr \<lparr>img_dtype = UInt8, img_data = [[[100, 100, 100], [50, 50, 50]]]\<rparr>"
    by (simp add: ensure_uint8_def m d)
  with r have "load_geotiff_for_detection w file_path =
     Inr (\<lparr>img_dtype = UInt8, img_data = [[[100, 100, 100], [50, 50, 50]]]\<rparr>,
          ds_transform gray16, ds_crs gray16)"
    by (simp add: load_of_open [OF assms])
  then show ?thesis
    by (simp add: gray16_def)
qed

text \<open>
  C6, as stated, fails: the 16-bit raster \<open>gray16\<close>, whose largest pixel value
  is 100, is not rescaled; its values 100 and 50 come out as 100 and 50, and
  the maximum is not mapped to 255.
\<close>

theorem load_geotiff_no_rescale_counterexample:
  "ds_dtype gray16 \<noteq> UInt8 \<and>
   load_geotiff_for_detection raster_world ''/data/gray16.tif'' =
     Inr (\<lparr>img_dtype = UInt8, img_data = [[[100, 100, 100], [50, 50, 50]]]\<rparr>,
          identity_affine, ''EPSG:4326'')"
  using load_gray16 [OF open_gray16] by (simp add: gray16_def)

lemma read_bands_dtype: "read_bands src = Inr img0 \<Longrightarrow> img_dtype img0 = ds_dtype src"
  by (auto simp: read_bands_def Let_def split: if_splits)

lemma astype_uint8_scaled:
  assumes "0 \<le> v" "v \<le> m" "255 < m"
  shows "astype_uint8 (v / m * 255) = of_int \<lfloor>v * 255 / m\<rfloor>"
    and "0 \<le> astype_uint8 (v / m * 255)"
    and "astype_uint8 (v / m * 255) \<le> 255"
proof -
  let ?x = "v / m * 255"
  from assms have m0: "0 < m" by simp
  have x0: "0 \<le> ?x" using assms(1) m0 by simp
  have "v / m \<le> 1" using assms(2) m0 by (simp add: pos_divide_le_eq)
  then have "v / m * 255 \<le> 1 * 255" by (intro mult_right_mono) simp_all
  then have x1: "?x \<le> 255" by simp
  from x0 have f0: "0 \<le> \<lfloor>?x\<rfloor>" by simp
  from x1 have f1: "\<lfloor>?x\<rfloor> \<le> 255" by (simp add: floor_le_iff)
  from x0 have p: "py_int ?x = \<lfloor>?x\<rfloor>" by (simp add: py_int_def)
  from f0 f1 have md: "\<lfloor>?x\<rfloor> mod 256 = \<lfloor>?x\<rfloor>" by simp
  have e: "astype_uint8 ?x = of_int \<lfloor>?x\<rfloor>"
    unfolding astype_uint8_def p md ..
  have "?x = v * 255 / m" by simp
  with e show "astype_uint8 ?x = of_int \<lfloor>v * 255 / m\<rfloor>" by simp
  from e f0 show "0 \<le> astype_uint8 ?x" by simp
  from e f1 show "astype_uint8 ?x \<le> 255" by simp
qed

lemma astype_uint8_max: "255 < m \<Longrightarrow> astype_uint8 (m / m * 255) = 255"
  by (simp add: astype_uint8_def py_int_def)

text \<open>
  C6, amended: for a loaded raster whose pixel datatype is not 8-bit unsigned,
  the loader rescales only when the maximum observed pixel value \<open>m\<close> exceeds
  255: each value \<open>v\<close> becomes \<open>v / m * 255\<close> truncated to 8-bit unsigned, so
  that \<open>m\<close> maps to 255 and a value between 0 and \<open>m\<close> to the integer part of
  \<open>v * 255 / m\<close>. When \<open>m\<close> is at most 255 the values are cast to 8-bit
  unsigned without rescaling, which leaves every integer between 0 and 255 as
  it is. If the datatype is already 8-bit unsigned the buffer passes through
  unchanged.
\<close>

theorem load_geotiff_normalization:
  assumes "rasterio_open w file_path = Inr src"
    and "read_bands src = Inr raw"
    and "np_max (img_data raw) = Inr m"
  shows "m = Max (set (concat (concat (img_data raw)))) \<and>
         (ds_dtype src = UInt8 \<longrightarrow>
            load_geotiff_for_detection w file_path = Inr (raw, ds_transform src, ds_crs src)) \<and>
         (ds_dtype src \<noteq> UInt8 \<and> 255 < m \<longrightarrow>
            load_geotiff_for_detection w file_path =
              Inr (\<lparr>img_dtype = UInt8,
                    img_data = map_pixels (\<lambda>v. astype_uint8 (v / m * 255)) (img_data raw)\<rparr>,
                   ds_transform src, ds_crs src) \<and>
            astype_uint8 (m / m * 255) = 255 \<and>
            (\<forall>v. 0 \<le> v \<and> v \<le> m \<longrightarrow>
               astype_uint8 (v / m * 255) = of_int \<lfloor>v * 255 / m\<rfloor> \<and>
               0 \<le> astype_uint8 (v / m * 255) \<and> astype_uint8 (v / m * 255) \<le> 255)) \<and>
         (ds_dtype src \<noteq> UInt8 \<and> m \<le> 255 \<longrightarrow>
            load_geotiff_for_detection w file_path =
              Inr (\<lparr>img_dtype = UInt8, img_data = map_pixels astype_uint8 (img_data raw)\<rparr>,
                   ds_transform src, ds_crs src)) \<and>
         (\<forall>n. 0 \<le> n \<and> n \<le> 255 \<longrightarrow> astype_uint8 (of_int n) = of_int n)"
proof (intro conjI impI allI)
  note l = load_of_open [OF assms(1)]
  note dt = read_bands_dtype [OF assms(2)]
  from assms(3) show "m = Max (set (concat (concat (img_data raw))))"
    by (auto simp: np_max_def Let_def split: if_splits)
  show "load_geotiff_for_detection w file_path = Inr (raw, ds_transform src, ds_crs src)"
    if "ds_dtype src = UInt8"
    using that dt assms(2) by (simp add: l ensure_uint8_def)
  show "load_geotiff_for_detection w file_path =
      Inr (\<lparr>img_dtype = UInt8,
            img_data = map_pixels (\<lambda>v. astype_uint8 (v / m * 255)) (img_data raw)\<rparr>,
           ds_transform src, ds_crs src)"
    if "ds_dtype src \<noteq> UInt8 \<and> 255 < m"
    using that dt assms(2,3) by (simp add: l ensure_uint8_def)
  show "astype_uint8 (m / m * 255) = 255" if "ds_dtype src \<noteq> UInt8 \<and> 255 < m"
    using that astype_uint8_max [of m] by blast
  show "astype_uint8 (v / m * 255) = of_int \<lfloor>v * 255 / m\<rfloor>"
    if "ds_dtype src \<noteq> UInt8 \<and> 255 < m" "0 \<le> v \<and> v \<le> m" for v
    using that by (intro astype_uint8_scaled) simp_all
  show "0 \<le> astype_uint8 (v / m * 255)"
    if "ds_dtype src \<noteq> UInt8 \<and> 255 < m" "0 \<le> v \<and> v \<le> m" for v
    using that by (intro astype_uint8_scaled(2) [of v m]) simp_all
  show "astype_uint8 (v / m * 255) \<le> 255"
    if "ds_dtype src \<noteq> UInt8 \<and> 255 < m" "0 \<le> v \<and> v \<le> m" for v
    using that by (intro astype_uint8_scaled(3) [of v m]) simp_all
  show "load_geotiff_for_detection w file_path =
      Inr (\<lparr>img_dtype = UInt8, img_data = map_pixels astype_uint8 (img_data raw)\<rparr>,
           ds_transform src, ds_crs src)"
    if "ds_dtype src \<noteq> UInt8 \<and> m \<le> 255"
    using that dt assms(2,3) by (simp add: l ensure_uint8_def)
  show "astype_uint8 (of_int n) = of_int n" if "0 \<le> n \<and> n \<le> 255" for n
    using that by (simp add: astype_uint8_of_int)
qed

lemma transposed_rgb16:
  "np_transpose_1_2_0 (ds_height rgb16) (ds_width rgb16) (take 3 (ds_bands rgb16)) =
     [[[1000, 250, 100], [500, 0, 50]]]"
  by (simp add: np_transpose_1_2_0_def rgb16_def upt_0_1 upt_0_2)

lemma read_rgb16:
  "read_bands rgb16 = Inr \<lparr>img_dtype = UInt16, img_data = [[[1000, 250, 100], [500, 0, 50]]]\<rparr>"
  using read_bands_rgb [of rgb16] demo_counts(3) transposed_rgb16
  by (simp add: rgb16_def)

lemma np_max_rgb16: "np_max [[[1000, 250, 100], [500, 0, 50]]] = Inr 1000"
  by (simp add: np_max_def)

lemma rescaled_rgb16:
  "map_pixels (\<lambda>v. astype_uint8 (v / 1000 * 255)) [[[1000, 250, 100], [500, 0, 50]]] =
     [[[255, 63, 25], [127, 0, 12]]]"
  by (simp add: map_pixels_def astype_uint8_def py_int_def)

theorem load_geotiff_normalization_witness:
  "rasterio_open raster_world ''/data/rgb16.tif'' = Inr rgb16 \<and>
   read_bands rgb16 =
     Inr \<lparr>img_dtype = UInt16, img_data = [[[1000, 250, 100], [500, 0, 50]]]\<rparr> \<and>
   np_max [[[1000, 250, 100], [500, 0, 50]]] = Inr 1000 \<and>
   ds_dtype rgb16 \<noteq> UInt8 \<and>
   load_geotiff_for_detection raster_world ''/data/rgb16.tif'' =
     Inr (\<lparr>img_dtype = UInt8, img_data = [[[255, 63, 25], [127, 0, 12]]]\<rparr>,
          identity_affine, ''EPSG:4326'')"
proof -
  have d: "ds_dtype rgb16 \<noteq> UInt8" "ds_transform rgb16 = identity_affine"
    "ds_crs rgb16 = ''EPSG:4326''"
    by (simp_all add: rgb16_def)
  have nm: "np_max (img_data \<lparr>img_dtype = UInt16,
      img_data = [[[1000, 250, 100], [500, 0, 50]]]\<rparr>) = Inr 1000"
    by (simp add: np_max_rgb16)
  note t = load_geotiff_normalization
      [where w = raster_world and file_path = "''/data/rgb16.tif''" and src = rgb16
         and raw = "\<lparr>img_dtype = UInt16, img_data = [[[1000, 250, 100], [500, 0, 50]]]\<rparr>"
         and m = 1000, OF open_rgb16 read_rgb16 nm]
  note c = t [THEN conjunct2, THEN conjunct2, THEN conjunct1, THEN mp, THEN conjunct1]
  have "load_geotiff_for_detection raster_world ''/data/rgb16.tif'' =
      Inr (\<lparr>img_dtype = UInt8,
            img_data = map_pixels (\<lambda>v. astype_uint8 (v / 1000 * 255))
                         (img_data \<lparr>img_dtype = UInt16,
                            img_data = [[[1000, 250, 100], [500, 0, 50]]]\<rparr>)\<rparr>,
           ds_transform rgb16, ds_crs rgb16)"
    by (rule c) (simp add: d)
  then have "load_geotiff_for_detection raster_world ''/data/rgb16.tif'' =
      Inr (\<lparr>img_dtype = UInt8, img_data = [[[255, 63, 25], [127, 0, 12]]]\<rparr>,
           identity_affine, ''EPSG:4326'')"
    by (simp only: image.select_convs rescaled_rgb16 d)
  with open_rgb16 read_rgb16 np_max_rgb16 d(1) show ?thesis
    by (intro conjI)
qed

section \<open>Cleanup of the staged file\<close>

lemma cleanup_removes:
  "files w p \<noteq> None \<Longrightarrow> p \<notin> undeletable w \<Longrightarrow>
     cleanup_temp_file w p = Inr (w\<lparr>files := (files w)(p := None)\<rparr>)"
  by (auto simp: cleanup_temp_file_def cleanup_body_def os_path_exists_def os_remove_def)

lemma cleanup_noop:
  "files w p = None \<or> p \<in> undeletable w \<Longrightarrow> cleanup_temp_file w p = Inr w"
  by (auto simp: cleanup_temp_file_def cleanup_body_def os_path_exists_def os_remove_def)

lemma cleanup_total: "\<exists>w'. cleanup_temp_file w p = Inr w'"
  by (cases "files w p = None \<or> p \<in> undeletable w") (auto simp: cleanup_removes cleanup_noop)

text \<open>
  C10: \<^verbatim>\<open>cleanup_temp_file\<close> returns normally for every path and every state of
  the file system. If the file exists and can be removed, it is gone afterwards
  and no other file is touched; if it does not exist, or its removal fails,
  nothing changes. A second call on the same path returns normally as well and
  changes nothing.
\<close>

theorem cleanup_temp_file_never_raises:
  "(\<exists>w'. cleanup_temp_file w p = Inr w') \<and>
   (files w p \<noteq> None \<and> p \<notin> undeletable w \<longrightarrow>
      (\<exists>w'. cleanup_temp_file w p = Inr w' \<and> files w' p = None \<and>
         (\<forall>q. q \<noteq> p \<longrightarrow> files w' q = files w q) \<and> undeletable w' = undeletable w)) \<and>
   (files w p = None \<or> p \<in> undeletable w \<longrightarrow> cleanup_temp_file w p = Inr w) \<and>
   (\<forall>w'. cleanup_temp_file w p = Inr w' \<longrightarrow> cleanup_temp_file w' p = Inr w')"
proof (intro conjI impI allI)
  show "\<exists>w'. cleanup_temp_file w p = Inr w'"
    by (rule cleanup_total)
  show "\<exists>w'. cleanup_temp_file w p = Inr w' \<and> files w' p = None \<and>
      (\<forall>q. q \<noteq> p \<longrightarrow> files w' q = files w q) \<and> undeletable w' = undeletable w"
    if "files w p \<noteq> None \<and> p \<notin> undeletable w"
    using that by (simp add: cleanup_removes)
  show "cleanup_temp_file w p = Inr w" if "files w p = None \<or> p \<in> undeletable w"
    using that by (rule cleanup_noop)
  show "cleanup_temp_file w' p = Inr w'" if "cleanup_temp_file w p = Inr w'" for w'
  proof (cases "files w p = None \<or> p \<in> undeletable w")
    case True
    with that have "w' = w" by (simp add: cleanup_noop)
    with True show ?thesis by (simp add: cleanup_noop)
  next
    case False
    with that have "w' = w\<lparr>files := (files w)(p := None)\<rparr>"
      by (simp add: cleanup_removes)
    then have "files w' p = None" by simp
    then show ?thesis by (simp add: cleanup_noop)
  qed
qed

theorem cleanup_temp_file_never_raises_witness:
  "files raster_world ''/data/two.tif'' \<noteq> None \<and>
   ''/data/two.tif'' \<notin> undeletable raster_world \<and>
   (\<exists>w'. cleanup_temp_file raster_world ''/data/two.tif'' = Inr w' \<and>
      files w' ''/data/two.tif'' = None \<and>
      files w' ''/data/gray16.tif'' = Some (Some gray16) \<and>
      cleanup_temp_file w' ''/data/two.tif'' = Inr w') \<and>
   files raster_world ''/data/none.tif'' = None \<and>
   cleanup_temp_file raster_world ''/data/none.tif'' = Inr raster_world"
proof -
  have e: "files raster_world ''/data/two.tif'' \<noteq> None"
    "''/data/two.tif'' \<notin> undeletable raster_world"
    "files raster_world ''/data/none.tif'' = None"
    "files raster_world ''/data/gray16.tif'' = Some (Some gray16)"
    by (simp_all add: raster_world_def)
  note t = cleanup_temp_file_never_raises [of raster_world "''/data/two.tif''"]
  from t e(1,2) obtain w' where w': "cleanup_temp_file raster_world ''/data/two.tif'' = Inr w'"
    "files w' ''/data/two.tif'' = None"
    "\<forall>q. q \<noteq> ''/data/two.tif'' \<longrightarrow> files w' q = files raster_world q"
    by blast
  from w'(3) e(4) have g: "files w' ''/data/gray16.tif'' = Some (Some gray16)"
    by simp
  from t w'(1) have i: "cleanup_temp_file w' ''/data/two.tif'' = Inr w'"
    by blast
  from cleanup_temp_file_never_raises [of raster_world "''/data/none.tif''"] e(3)
  have n: "cleanup_temp_file raster_world ''/data/none.tif'' = Inr raster_world"
    by blast
  from e w' g i n show ?thesis by blast
qed

lemma download_ok:
  "http_get url = Inr content \<Longrightarrow>
     download_geotiff http_get temp_path w url =
       (w\<lparr>files := (files w)(temp_path \<mapsto> content)\<rparr>, Inr temp_path)"
  by (simp add: download_geotiff_def Let_def)

lemma download_failed:
  "http_get url = Inl e \<Longrightarrow>
     download_geotiff http_get temp_path w url =
       (w\<lparr>files := (files w)(temp_path \<mapsto> None)\<rparr>, Inl e)"
  by (simp add: download_geotiff_def Let_def)

lemma run_stages_downloaded:
  assumes "http_get (geotiff_url request) = Inr content"
  shows "\<exists>outcome. run_stages http_get temp_path detectMarkers w request =
           (w\<lparr>files := (files w)(temp_path \<mapsto> content)\<rparr>, Some temp_path, outcome)"
  using assms by (simp add: run_stages_def download_ok)

lemma detect_markers_after_download:
  assumes "run_stages http_get temp_path detectMarkers w request = (w1, Some p, outcome)"
    and "p \<noteq> []" and "cleanup_temp_file w1 p = Inr w2"
  shows "detect_markers http_get temp_path detectMarkers w request =
           (w2, case outcome of Inl e \<Rightarrow> Inl (HTTPException 500 e) | Inr r \<Rightarrow> Inr r)"
  using assms by (simp add: detect_markers_def Let_def)

lemma detect_markers_retrieval_failed:
  assumes "http_get (geotiff_url request) = Inl e"
  shows "detect_markers http_get temp_path detectMarkers w request =
           (w\<lparr>files := (files w)(temp_path \<mapsto> None)\<rparr>, Inl (HTTPException 500 e))"
  using assms by (simp add: detect_markers_def run_stages_def download_failed Let_def)

text \<open>
  After a successful retrieval, every exit path of the handler (success, load
  failure and detection failure alike) calls \<^verbatim>\<open>cleanup_temp_file\<close> on the
  staged file before it returns: the file is deleted when its removal
  succeeds, and no other file is touched.
\<close>

lemma detect_markers_cleans_after_download:
  assumes "http_get (geotiff_url request) = Inr content" and "temp_path \<noteq> []"
  shows "\<exists>w2 outcome.
           detect_markers http_get temp_path detectMarkers w request =
             (w2, case outcome of Inl e \<Rightarrow> Inl (HTTPException 500 e) | Inr r \<Rightarrow> Inr r) \<and>
           cleanup_temp_file (fst (download_geotiff http_get temp_path w (geotiff_url request)))
             temp_path = Inr w2 \<and>
           (temp_path \<notin> undeletable w \<longrightarrow> files w2 temp_path = None) \<and>
           (\<forall>q. q \<noteq> temp_path \<longrightarrow> files w2 q = files w q)"
proof -
  let ?w1 = "w\<lparr>files := (files w)(temp_path \<mapsto> content)\<rparr>"
  from assms(1) obtain outcome where
    r: "run_stages http_get temp_path detectMarkers w request = (?w1, Some temp_path, outcome)"
    using run_stages_downloaded by blast
  have dl: "fst (download_geotiff http_get temp_path w (geotiff_url request)) = ?w1"
    using assms(1) by (simp add: download_ok)
  show ?thesis
  proof (cases "temp_path \<in> undeletable w")
    case True
    then have k: "cleanup_temp_file ?w1 temp_path = Inr ?w1"
      by (intro cleanup_noop) simp
    from detect_markers_after_download [OF r assms(2) k] k True dl show ?thesis
      by (intro exI [of _ ?w1] exI [of _ outcome]) simp
  next
    case False
    let ?w2 = "?w1\<lparr>files := (files ?w1)(temp_path := None)\<rparr>"
    from False have k: "cleanup_temp_file ?w1 temp_path = Inr ?w2"
      by (intro cleanup_removes) simp_all
    from detect_markers_after_download [OF r assms(2) k] k False dl show ?thesis
      by (intro exI [of _ ?w2] exI [of _ outcome]) simp
  qed
qed

text \<open>
  C9: the claim asks for the staged file to be deleted on every exit path,
  the failure of the retrieval itself included. On that path the handler does
  not delete it. \<^verbatim>\<open>NamedTemporaryFile(delete=False)\<close> has created the file when
  the HTTP request fails; \<^verbatim>\<open>download_geotiff\<close> raises before it returns the
  path, so \<^verbatim>\<open>temp_file\<close> in \<^verbatim>\<open>detect_markers\<close> is still \<^verbatim>\<open>None\<close> and the
  \<^verbatim>\<open>finally\<close> block skips \<^verbatim>\<open>cleanup_temp_file\<close>. Starting from an empty file
  system, the run ends with HTTPException 500 and the file
  \<^verbatim>\<open>/tmp/aruco/tmpab12.tif\<close> exists afterwards.
\<close>

theorem detect_markers_retrieval_failure_leaks:
  "failing_http (geotiff_url demo_request) = Inl HTTPStatusError \<and>
   \<not> os_path_exists empty_world ''/tmp/aruco/tmpab12.tif'' \<and>
   snd (detect_markers failing_http ''/tmp/aruco/tmpab12.tif''
          (const_detector three_detections) empty_world demo_request) =
     Inl (HTTPException 500 HTTPStatusError) \<and>
   os_path_exists
     (fst (detect_markers failing_http ''/tmp/aruco/tmpab12.tif''
             (const_detector three_detections) empty_world demo_request))
     ''/tmp/aruco/tmpab12.tif''"
proof -
  let ?p = "''/tmp/aruco/tmpab12.tif''"
  have f: "failing_http (geotiff_url demo_request) = Inl HTTPStatusError"
    by (simp add: failing_http_def)
  have a: "detect_markers failing_http ?p (const_detector three_detections) empty_world
        demo_request =
      (empty_world\<lparr>files := (files empty_world)(?p \<mapsto> None)\<rparr>,
       Inl (HTTPException 500 HTTPStatusError))"
    using f by (rule detect_markers_retrieval_failed)
  show ?thesis
    unfolding a by (simp add: f os_path_exists_def empty_world_def)
qed

end
